theory Spec2Isabelle
  imports Main
begin

section \<open>The survey pipeline of \<^verbatim>\<open>src/pipeline.py\<close>\<close>

text \<open>
  The script fetches a CSV export over HTTP, reads it with \<^verbatim>\<open>pandas.read_csv\<close>,
  normalises the column labels, renames them, converts two columns to timestamps and
  writes the rows to a PostgreSQL table that it drops and recreates.

  The script is modelled stage by stage, in the order of its sections. What the
  libraries decide and the script does not is taken as a parameter (\<open>env\<close> below):
  which Python value a CSV field becomes, which texts the date parser accepts, whether
  the database server can be reached and which statements it accepts.

  Strings are sequences of code points below 256 (the Latin-1 range of a Python
  \<^verbatim>\<open>str\<close>); \<^verbatim>\<open>str.isspace\<close> and \<^verbatim>\<open>str.lower\<close> are written out for that range.
\<close>

subsection \<open>Errors\<close>

datatype error =
    FetchFailed         \<comment> \<open>\<^verbatim>\<open>raise Exception("Failed to fetch data ...")\<close>, line 44\<close>
  | EmptyDataError      \<comment> \<open>\<^verbatim>\<open>read_csv\<close>: no columns to parse from file\<close>
  | ValueError          \<comment> \<open>\<^verbatim>\<open>to_datetime\<close> of a frame: cannot assemble with duplicate keys\<close>
  | OperationalError    \<comment> \<open>\<^verbatim>\<open>psycopg2.connect\<close> failed\<close>
  | DatabaseError       \<comment> \<open>\<^verbatim>\<open>cursor.execute\<close> failed\<close>

subsection \<open>Section 3 of the script: column labels\<close>

definition is_space :: "char \<Rightarrow> bool" where
  \<comment> \<open>\<^verbatim>\<open>str.isspace\<close> on the code points below 256\<close>
  "is_space c = ((of_char c :: nat) \<in> {9, 10, 11, 12, 13, 28, 29, 30, 31, 32, 133, 160})"

definition strip :: "string \<Rightarrow> string" where
  "strip s = rev (dropWhile is_space (rev (dropWhile is_space s)))"

definition lower_char :: "char \<Rightarrow> char" where
  \<comment> \<open>\<^verbatim>\<open>str.lower\<close> on one code point below 256: A-Z and the accented capitals\<close>
  "lower_char c =
     (let n = (of_char c :: nat)
      in if (65 \<le> n \<and> n \<le> 90) \<or> (192 \<le> n \<and> n \<le> 222 \<and> n \<noteq> 215)
         then char_of (n + 32) else c)"

definition lower :: "string \<Rightarrow> string" where
  "lower s = map lower_char s"

definition replace :: "char \<Rightarrow> string \<Rightarrow> string \<Rightarrow> string" where
  \<comment> \<open>\<^verbatim>\<open>str.replace\<close> with a one-character pattern, taken literally\<close>
  "replace pat repl s = concat (map (\<lambda>c. if c = pat then repl else [c]) s)"

definition canonicalize :: "string \<Rightarrow> string" where
  \<comment> \<open>the chain of lines 59 to 70, innermost call first\<close>
  "canonicalize s =
     replace (CHR ''!'') []
       (replace (CHR ''.'') []
         (replace (CHR ''?'') []
           (replace (CHR ''-'') ''_''
             (replace (CHR ''&'') ''and''
               (replace (CHR '' '') ''_''
                 (replace (CHR 0x22) []
                   (lower (strip s))))))))"

definition special :: "char set" where
  \<comment> \<open>the characters the chain removes or replaces\<close>
  "special = {CHR 0x22, CHR '' '', CHR ''&'', CHR ''-'', CHR ''?'', CHR ''.'', CHR ''!''}"

definition settled :: "char \<Rightarrow> bool" where
  "settled c = (c \<notin> special \<and> lower_char c = c)"

subsection \<open>Section 4 of the script: the mapping\<close>

definition COLUMN_MAPPING :: "(string \<times> string) list" where
  "COLUMN_MAPPING =
    [(''start'', ''start_time''),
     (''end'', ''end_time''),
     (''nationality'', ''nationality''),
     (''region'', ''region''),
     (''school_name'', ''school_name''),
     (''level_of_study'', ''level_of_study''),
     (''gender'', ''gender''),
     (''age'', ''age''),
     (''gps_coordinates'', ''gps_coordinates''),
     (''name_of_organisation'', ''name_of_organization''),
     (''your_current_position_in_the_organization'', ''current_position''),
     (''years_of_work_experience'', ''years_of_experience''),
     (''which_specific_energy_domain_does_your_organization_concentrate_on'',
        ''energy_domain''),
     (''i_give_consent_for_my_information_to_be_collected_and_used_for_research_purposes'',
        ''consent'')]"

definition rename_label :: "string \<Rightarrow> string" where
  \<comment> \<open>\<^verbatim>\<open>df.rename(columns=COLUMN_MAPPING)\<close> on one label: a key is replaced, any other
      label stays\<close>
  "rename_label l = (case map_of COLUMN_MAPPING l of Some d \<Rightarrow> d | None \<Rightarrow> l)"

definition INSERT_COLUMNS :: "string list" where
  \<comment> \<open>the column list of \<^verbatim>\<open>insert_query\<close>, lines 163 to 166\<close>
  "INSERT_COLUMNS =
    [''start_time'', ''end_time'', ''nationality'', ''region'', ''school_name'',
     ''level_of_study'', ''gender'', ''age'', ''gps_coordinates'',
     ''name_of_organization'', ''current_position'',
     ''years_of_experience'', ''energy_domain'', ''consent'']"

definition SCHEMA_NAME :: string where
  "SCHEMA_NAME = ''women_survey''"

definition TABLE_NAME :: string where
  "TABLE_NAME = ''women_participation_energy''"

subsection \<open>The working table\<close>

text \<open>
  A cell of the working table is a value \<^verbatim>\<open>read_csv\<close> produced (of a type \<open>'v\<close> the
  model leaves open: a string, a number, NaN), a timestamp or NaT produced by
  \<^verbatim>\<open>to_datetime\<close>, or Python's \<^verbatim>\<open>None\<close>.
\<close>

type_synonym timestamp = int

datatype 'v cell = Parsed 'v | Timestamp timestamp | NaT | PyNone

record 'v dataframe =
  columns :: "string list"
  rows :: "'v cell list list"

definition rectangular :: "'v dataframe \<Rightarrow> bool" where
  \<comment> \<open>every row has one cell per column, as in every pandas frame\<close>
  "rectangular df = list_all (\<lambda>r. length r = length (columns df)) (rows df)"

text \<open>What the libraries and the servers decide.\<close>

datatype 'v param = Scalar "'v cell" | SubSeries "'v cell list"

datatype 'v statement =
    CreateSchemaIfNotExists string
  | DropTableIfExists string string
  | CreateTable string string
  | InsertInto string string "'v param list"

record 'v env =
  infer :: "string option list \<Rightarrow> string option \<Rightarrow> 'v"
    \<comment> \<open>\<^verbatim>\<open>read_csv\<close>'s conversion of one field, given the fields of its column;
        \<open>None\<close> is a field a short row does not have\<close>
  parse_datetime :: "'v cell list \<Rightarrow> 'v cell \<Rightarrow> timestamp option"
    \<comment> \<open>\<^verbatim>\<open>to_datetime\<close>'s parser on one cell, given the cells of its column;
        \<open>None\<close> is a parse failure\<close>
  reachable :: bool
    \<comment> \<open>\<^verbatim>\<open>psycopg2.connect\<close> succeeds\<close>
  accepts :: "'v statement \<Rightarrow> bool"
    \<comment> \<open>driver and server take the statement (no adaptation error, no permission
        or constraint error)\<close>

subsection \<open>Section 2 of the script: fetching and reading\<close>

text \<open>
  The body of the response is given as \<^verbatim>\<open>read_csv\<close>'s tokenizer sees it: its non-blank
  lines, each split at \<^verbatim>\<open>;\<close> into fields, the header line first. Quoting, and the
  renaming of repeated or empty header fields, happen before this and are not modelled.

  What \<^verbatim>\<open>read_csv(sep=";", on_bad_lines="skip")\<close> does with these lines is pandas'
  behaviour, written out here from its documentation (a bad line is a line with too many
  fields) and its tokenizer: the header fixes the columns; the first data line is never
  checked, and when it is longer than the header its leading fields become the index;
  a later line with more fields than the first, padded, data line is skipped; a line
  with fewer fields is filled up with missing values. A text without a header is an
  error.
\<close>

record response =
  status_code :: int
  text_lines :: "string list list"

definition fetch :: "response \<Rightarrow> error + string list list" where
  "fetch r = (if status_code r \<noteq> 200 then Inl FetchFailed else Inr (text_lines r))"

definition table_width :: "string list \<Rightarrow> string list list \<Rightarrow> nat" where
  \<comment> \<open>the field count every later line is held against: the first data line is never
      checked, and is padded to the header's length\<close>
  "table_width hdr body =
     (case body of [] \<Rightarrow> length hdr | l # _ \<Rightarrow> max (length hdr) (length l))"

definition keep_lines :: "nat \<Rightarrow> string list list \<Rightarrow> string list list" where
  \<comment> \<open>\<^verbatim>\<open>on_bad_lines="skip"\<close>: a bad line is a line with too many fields\<close>
  "keep_lines w body =
     (case body of [] \<Rightarrow> [] | l # ls \<Rightarrow> l # filter (\<lambda>x. length x \<le> w) ls)"

definition pad :: "nat \<Rightarrow> string list \<Rightarrow> string option list" where
  \<comment> \<open>missing trailing fields are filled in\<close>
  "pad w l = map Some l @ replicate (w - length l) None"

definition field_table :: "string list \<Rightarrow> string list list \<Rightarrow> string option list list" where
  \<comment> \<open>the kept lines, padded; when the first data line is longer than the header the
      leading fields become the index and are no column\<close>
  "field_table hdr body =
     (let w = table_width hdr body
      in map (\<lambda>l. drop (w - length hdr) (pad w l)) (keep_lines w body))"

definition convert_fields ::
  "(string option list \<Rightarrow> string option \<Rightarrow> 'v) \<Rightarrow> string option list list \<Rightarrow> 'v cell list list" where
  "convert_fields conv tab =
     map (\<lambda>r. map (\<lambda>(j, t). Parsed (conv (map (\<lambda>r'. r' ! j) tab) t)) (enumerate 0 r)) tab"

definition read_csv :: "'v env \<Rightarrow> string list list \<Rightarrow> error + 'v dataframe" where
  "read_csv env ls =
     (case ls of
        [] \<Rightarrow> Inl EmptyDataError
      | hdr # body \<Rightarrow>
          Inr \<lparr>columns = hdr, rows = convert_fields (infer env) (field_table hdr body)\<rparr>)"

definition consistent_rows :: "string list \<Rightarrow> string list list \<Rightarrow> string list list" where
  \<comment> \<open>the data rows the specification calls parseable: as many fields as the header\<close>
  "consistent_rows hdr body = filter (\<lambda>l. length l = length hdr) body"

subsection \<open>Sections 3 and 4 of the script: labels and timestamps\<close>

definition clean_columns :: "'v dataframe \<Rightarrow> 'v dataframe" where
  "clean_columns df = df\<lparr>columns := map canonicalize (columns df)\<rparr>"

definition rename_columns :: "'v dataframe \<Rightarrow> 'v dataframe" where
  "rename_columns df = df\<lparr>columns := map rename_label (columns df)\<rparr>"

definition lookup :: "(string \<times> 'a) list \<Rightarrow> string \<Rightarrow> 'a list" where
  \<comment> \<open>the values stored under a label, in order\<close>
  "lookup s key = map snd (filter (\<lambda>p. fst p = key) s)"

datatype 'v selection = Missing | Column "'v cell list" | SubFrame

definition df_get :: "'v dataframe \<Rightarrow> string \<Rightarrow> 'v selection" where
  \<comment> \<open>\<^verbatim>\<open>df.get(key)\<close>: \<^verbatim>\<open>None\<close> for no such column, the column, or a frame when the
      label is repeated\<close>
  "df_get df key =
     (if key \<notin> set (columns df) then Missing
      else if count_list (columns df) key = 1
        then Column (concat (map (\<lambda>r. lookup (zip (columns df) r) key) (rows df)))
      else SubFrame)"

definition coerce :: "('v cell list \<Rightarrow> 'v cell \<Rightarrow> timestamp option) \<Rightarrow> 'v cell list \<Rightarrow> 'v cell \<Rightarrow> 'v cell" where
  \<comment> \<open>\<^verbatim>\<open>errors="coerce"\<close>: a cell that does not parse becomes NaT\<close>
  "coerce p col c = (case p col c of Some t \<Rightarrow> Timestamp t | None \<Rightarrow> NaT)"

definition to_datetime :: "'v env \<Rightarrow> 'v selection \<Rightarrow> error + 'v cell list option" where
  "to_datetime env sel =
     (case sel of
        Missing \<Rightarrow> Inr None
      | Column col \<Rightarrow> Inr (Some (map (coerce (parse_datetime env) col) col))
      | SubFrame \<Rightarrow> Inl ValueError)"

definition setitem :: "'v dataframe \<Rightarrow> string \<Rightarrow> 'v cell list option \<Rightarrow> 'v dataframe" where
  \<comment> \<open>\<^verbatim>\<open>df[key] = value\<close>: \<^verbatim>\<open>None\<close> fills the column with \<^verbatim>\<open>None\<close>; an existing
      column is overwritten in place, a new one is appended\<close>
  "setitem df key val =
     (let vals = (case val of None \<Rightarrow> replicate (length (rows df)) PyNone | Some col \<Rightarrow> col)
      in if key \<in> set (columns df)
         then df\<lparr>rows := map (\<lambda>(r, v). map (\<lambda>(l, c). if l = key then v else c)
                                            (zip (columns df) r))
                            (zip (rows df) vals)\<rparr>
         else df\<lparr>columns := columns df @ [key],
                 rows := map (\<lambda>(r, v). r @ [v]) (zip (rows df) vals)\<rparr>)"

definition convert_timestamp :: "'v env \<Rightarrow> string \<Rightarrow> 'v dataframe \<Rightarrow> error + 'v dataframe" where
  \<comment> \<open>\<^verbatim>\<open>df[key] = pd.to_datetime(df.get(key), errors="coerce")\<close>\<close>
  "convert_timestamp env key df =
     (case to_datetime env (df_get df key) of
        Inl e \<Rightarrow> Inl e
      | Inr val \<Rightarrow> Inr (setitem df key val))"

definition transform :: "'v env \<Rightarrow> string list list \<Rightarrow> error + 'v dataframe" where
  \<comment> \<open>lines 48 to 99\<close>
  "transform env ls =
     (case read_csv env ls of
        Inl e \<Rightarrow> Inl e
      | Inr df \<Rightarrow>
          (case convert_timestamp env ''start_time'' (rename_columns (clean_columns df)) of
             Inl e \<Rightarrow> Inl e
           | Inr df1 \<Rightarrow> convert_timestamp env ''end_time'' df1))"

subsection \<open>Section 7 of the script: the rows to insert\<close>

definition iterrows :: "'v dataframe \<Rightarrow> (string \<times> 'v cell) list list" where
  "iterrows df = map (zip (columns df)) (rows df)"

definition row_get :: "(string \<times> 'v cell) list \<Rightarrow> string \<Rightarrow> 'v param" where
  \<comment> \<open>\<^verbatim>\<open>row.get(key)\<close>: \<^verbatim>\<open>None\<close> for no such label, the value, or a series when the
      label is repeated\<close>
  "row_get row key =
     (case lookup row key of
        [] \<Rightarrow> Scalar PyNone
      | [c] \<Rightarrow> Scalar c
      | cs \<Rightarrow> SubSeries cs)"

definition insert_params :: "(string \<times> 'v cell) list \<Rightarrow> 'v param list" where
  \<comment> \<open>the tuple of lines 177 to 192\<close>
  "insert_params row =
    [row_get row ''start_time'',
     row_get row ''end_time'',
     row_get row ''nationality'',
     row_get row ''region'',
     row_get row ''school_name'',
     row_get row ''level_of_study'',
     row_get row ''gender'',
     row_get row ''age'',
     row_get row ''gps_coordinates'',
     row_get row ''name_of_organization'',
     row_get row ''current_position'',
     row_get row ''years_of_experience'',
     row_get row ''energy_domain'',
     row_get row ''consent'']"

definition normalized_records :: "'v dataframe \<Rightarrow> 'v param list list" where
  "normalized_records df = map insert_params (iterrows df)"

definition without_label :: "string \<Rightarrow> (string \<times> 'a) list \<Rightarrow> (string \<times> 'a) list" where
  \<comment> \<open>a row with the columns of one label left out; used to state that the projection
      does not read them\<close>
  "without_label x row = filter (\<lambda>p. fst p \<noteq> x) row"

subsection \<open>Sections 5 to 7 of the script: the database\<close>

record 'v table =
  next_id :: nat                            \<comment> \<open>the sequence behind \<^verbatim>\<open>id SERIAL\<close>\<close>
  stored :: "(nat \<times> 'v param list) list"    \<comment> \<open>the rows, each with its id\<close>

record 'v database =
  schemas :: "string set"
  tables :: "string \<times> string \<rightharpoonup> 'v table"

datatype 'v event = Connected | Executed "'v statement" | Committed | Closed

record 'v world =
  committed :: "'v database"    \<comment> \<open>what every other session sees\<close>
  log :: "'v event list"        \<comment> \<open>what the script has done to the server, oldest first\<close>

record 'v connection =
  outside :: "'v world"
  view :: "'v database"         \<comment> \<open>the open transaction's own state\<close>

fun apply_statement :: "'v database \<Rightarrow> 'v statement \<Rightarrow> error + 'v database" where
  "apply_statement db (CreateSchemaIfNotExists s) =
     Inr (db\<lparr>schemas := insert s (schemas db)\<rparr>)"
| "apply_statement db (DropTableIfExists s t) =
     Inr (db\<lparr>tables := (tables db)((s, t) := None)\<rparr>)"
| "apply_statement db (CreateTable s t) =
     (if s \<notin> schemas db \<or> tables db (s, t) \<noteq> None then Inl DatabaseError
      else Inr (db\<lparr>tables := (tables db)((s, t) \<mapsto> \<lparr>next_id = 1, stored = []\<rparr>)\<rparr>))"
| "apply_statement db (InsertInto s t ps) =
     (case tables db (s, t) of
        None \<Rightarrow> Inl DatabaseError
      | Some tb \<Rightarrow>
          Inr (db\<lparr>tables := (tables db)((s, t) \<mapsto>
                 \<lparr>next_id = Suc (next_id tb), stored = stored tb @ [(next_id tb, ps)]\<rparr>)\<rparr>))"

definition connect :: "'v env \<Rightarrow> 'v world \<Rightarrow> (error \<times> 'v world) + 'v connection" where
  \<comment> \<open>a new connection; its transaction starts from the committed state\<close>
  "connect env w =
     (if reachable env
      then Inr \<lparr>outside = w\<lparr>log := log w @ [Connected]\<rparr>, view = committed w\<rparr>
      else Inl (OperationalError, w))"

definition execute :: "'v env \<Rightarrow> 'v connection \<Rightarrow> 'v statement \<Rightarrow> (error \<times> 'v world) + 'v connection" where
  \<comment> \<open>\<^verbatim>\<open>cur.execute\<close>: an exception ends the script, the transaction is never committed
      and the server discards it\<close>
  "execute env conn st =
     (if \<not> accepts env st then Inl (DatabaseError, outside conn)
      else case apply_statement (view conn) st of
             Inl e \<Rightarrow> Inl (e, outside conn)
           | Inr db \<Rightarrow>
               Inr \<lparr>outside = (outside conn)\<lparr>log := log (outside conn) @ [Executed st]\<rparr>,
                    view = db\<rparr>)"

fun insert_rows :: "'v env \<Rightarrow> 'v connection \<Rightarrow> 'v param list list \<Rightarrow> (error \<times> 'v world) + 'v connection" where
  \<comment> \<open>the loop of lines 174 to 193\<close>
  "insert_rows env conn [] = Inr conn"
| "insert_rows env conn (ps # rest) =
     (case execute env conn (InsertInto SCHEMA_NAME TABLE_NAME ps) of
        Inl f \<Rightarrow> Inl f
      | Inr conn' \<Rightarrow> insert_rows env conn' rest)"

definition commit_and_close :: "'v connection \<Rightarrow> 'v world" where
  \<comment> \<open>lines 195 to 197\<close>
  "commit_and_close conn =
     \<lparr>committed = view conn, log = log (outside conn) @ [Committed, Closed]\<rparr>"

definition load :: "'v env \<Rightarrow> 'v dataframe \<Rightarrow> 'v world \<Rightarrow> (error \<times> 'v world) + 'v world" where
  \<comment> \<open>lines 106 to 197\<close>
  "load env df w =
     (case connect env w of
        Inl f \<Rightarrow> Inl f
      | Inr c0 \<Rightarrow>
     (case execute env c0 (CreateSchemaIfNotExists SCHEMA_NAME) of
        Inl f \<Rightarrow> Inl f
      | Inr c1 \<Rightarrow>
     (case execute env c1 (DropTableIfExists SCHEMA_NAME TABLE_NAME) of
        Inl f \<Rightarrow> Inl f
      | Inr c2 \<Rightarrow>
     (case execute env c2 (CreateTable SCHEMA_NAME TABLE_NAME) of
        Inl f \<Rightarrow> Inl f
      | Inr c3 \<Rightarrow>
     (case insert_rows env c3 (normalized_records df) of
        Inl f \<Rightarrow> Inl f
      | Inr c4 \<Rightarrow> Inr (commit_and_close c4))))))"

definition pipeline :: "'v env \<Rightarrow> response \<Rightarrow> 'v world \<Rightarrow> (error \<times> 'v world) + 'v world" where
  \<comment> \<open>the whole script: \<open>Inl\<close> is the exception that ended it, with the world it left\<close>
  "pipeline env r w =
     (case fetch r of
        Inl e \<Rightarrow> Inl (e, w)
      | Inr ls \<Rightarrow>
          (case transform env ls of
             Inl e \<Rightarrow> Inl (e, w)
           | Inr df \<Rightarrow> load env df w))"

definition destination :: "'v world \<Rightarrow> (nat \<times> 'v param list) list option" where
  \<comment> \<open>the committed rows of \<^verbatim>\<open>women_survey.women_participation_energy\<close>\<close>
  "destination w = map_option stored (tables (committed w) (SCHEMA_NAME, TABLE_NAME))"

text \<open>The ids a fresh \<^verbatim>\<open>SERIAL\<close> column gives to rows inserted one after the other.\<close>

fun numbered :: "nat \<Rightarrow> 'a list \<Rightarrow> (nat \<times> 'a) list" where
  "numbered n [] = []"
| "numbered n (x # xs) = (n, x) # numbered (Suc n) xs"

definition ddl :: "'v statement list" where
  \<comment> \<open>the three statements of lines 121 to 154\<close>
  "ddl = [CreateSchemaIfNotExists SCHEMA_NAME, DropTableIfExists SCHEMA_NAME TABLE_NAME,
          CreateTable SCHEMA_NAME TABLE_NAME]"

definition inserts :: "'v dataframe \<Rightarrow> 'v statement list" where
  \<comment> \<open>the statements the loop of lines 174 to 193 issues\<close>
  "inserts df = map (InsertInto SCHEMA_NAME TABLE_NAME) (normalized_records df)"

text \<open>A sample environment, for evaluating the model on concrete inputs.\<close>

definition sample_parser :: "string option cell list \<Rightarrow> string option cell \<Rightarrow> timestamp option" where
  "sample_parser col c =
     (if c = Parsed (Some ''2024-01-01T10:00'') then Some 1704103200
      else if c = Parsed (Some ''2024-01-01T10:30'') then Some 1704105000
      else None)"

definition sample_env :: "string option env" where
  "sample_env =
     \<lparr>infer = (\<lambda>col t. t), parse_datetime = sample_parser,
      reachable = True, accepts = (\<lambda>st. True)\<rparr>"

definition empty_world :: "string option world" where
  "empty_world = \<lparr>committed = \<lparr>schemas = {}, tables = Map.empty\<rparr>, log = []\<rparr>"

definition strict_env :: "string option env" where
  \<comment> \<open>a server that refuses NaT, as PostgreSQL does for a timestamp column\<close>
  "strict_env = sample_env\<lparr>accepts :=
      (\<lambda>st. case st of InsertInto s t ps \<Rightarrow> Scalar NaT \<notin> set ps | _ \<Rightarrow> True)\<rparr>"

definition survey_one :: response where
  "survey_one = \<lparr>status_code = 200, text_lines =
      [[''Start'', ''End'', ''Gender''],
       [''2024-01-01T10:00'', ''2024-01-01T10:30'', ''Female'']]\<rparr>"

definition survey_two :: response where
  "survey_two = \<lparr>status_code = 200, text_lines =
      [[''Gender'', ''Start''],
       [''Male'', ''2024-01-01T10:30''],
       [''Female'', ''yesterday'']]\<rparr>"

text \<open>Names for what the statements below talk about.\<close>

definition working_labels :: "string list \<Rightarrow> string list" where
  \<comment> \<open>the labels of the working table after lines 59 to 95\<close>
  "working_labels hdr = map rename_label (map canonicalize hdr)"

definition field :: "'v param list \<Rightarrow> string \<Rightarrow> 'v param option" where
  \<comment> \<open>the value an inserted tuple gives to a destination column\<close>
  "field rec d = map_of (zip INSERT_COLUMNS rec) d"


definition sample_header :: "string list" where
  "sample_header = [''Gender'', ''Comments'', ''Start'']"

definition sample_body :: "string list list" where
  "sample_body = [[''Male'', ''none'', ''2024-01-01T10:30''], [''Female'']]"

definition sample_table :: "string option dataframe" where
  "sample_table =
     \<lparr>columns = [''Gender'', ''Comments'', ''Start''],
      rows = [[Parsed (Some ''Male''), Parsed (Some ''none''), Parsed (Some ''2024-01-01T10:30'')],
              [Parsed (Some ''Female''), Parsed None, Parsed None]]\<rparr>"

definition sample_result :: "string option dataframe" where
  "sample_result =
     \<lparr>columns = [''gender'', ''comments'', ''start_time'', ''end_time''],
      rows = [[Parsed (Some ''Male''), Parsed (Some ''none''), Timestamp 1704105000, PyNone],
              [Parsed (Some ''Female''), Parsed None, NaT, PyNone]]\<rparr>"

section \<open>Label canonicalization\<close>

lemma of_char_lower_char:
  "(of_char (lower_char c) :: nat) =
     (let n = (of_char c :: nat)
      in if (65 \<le> n \<and> n \<le> 90) \<or> (192 \<le> n \<and> n \<le> 222 \<and> n \<noteq> 215)
         then n + 32 else n)"
  by (auto simp add: lower_char_def Let_def of_char_of)

lemma lower_char_idem: "lower_char (lower_char c) = lower_char c"
proof -
  have "(of_char (lower_char (lower_char c)) :: nat) = of_char (lower_char c)"
    by (simp add: of_char_lower_char [of "lower_char c"] Let_def)
       (auto simp add: of_char_lower_char Let_def)
  then show ?thesis by simp
qed

lemma is_space_lower_char: "is_space (lower_char c) = is_space c"
  by (auto simp add: is_space_def of_char_lower_char Let_def)

lemma set_replace:
  "set (replace pat repl s) = (set s - {pat}) \<union> (if pat \<in> set s then set repl else {})"
  by (induction s) (auto simp add: replace_def)

lemma replace_absent: "pat \<notin> set s \<Longrightarrow> replace pat repl s = s"
  by (induction s) (auto simp add: replace_def)

lemma set_strip: "set (strip s) \<subseteq> set s"
proof
  fix c assume "c \<in> set (strip s)"
  then have "c \<in> set (dropWhile is_space (rev (dropWhile is_space s)))"
    by (simp add: strip_def)
  then have "c \<in> set (rev (dropWhile is_space s))" by (rule set_dropWhileD)
  then have "c \<in> set (dropWhile is_space s)" by simp
  then show "c \<in> set s" by (rule set_dropWhileD)
qed

lemma lower_settled: "\<forall>c\<in>set s. lower_char c = c \<Longrightarrow> lower s = s"
  by (simp add: lower_def map_idI)

lemma settled_and: "settled (CHR ''a'')" "settled (CHR ''n'')" "settled (CHR ''d'')" "settled (CHR ''_'')"
  by (simp_all add: settled_def special_def lower_char_def)

lemma settled_canonicalize: "c \<in> set (canonicalize s) \<Longrightarrow> settled c"
proof -
  assume c: "c \<in> set (canonicalize s)"
  have low: "\<And>d. d \<in> set (lower (strip s)) \<Longrightarrow> lower_char d = d"
    by (auto simp add: lower_def lower_char_idem)
  from c have "c \<notin> special"
    by (auto simp add: canonicalize_def set_replace special_def split: if_splits)
  moreover from c have "c \<in> set (lower (strip s)) \<or> c \<in> set ''and'' \<or> c \<in> set ''_''"
    by (auto simp add: canonicalize_def set_replace split: if_splits)
  then have "lower_char c = c"
    using low settled_and by (auto simp add: settled_def)
  ultimately show ?thesis by (simp add: settled_def)
qed

lemma canonicalize_settled:
  assumes "\<forall>c\<in>set s. settled c"
  shows "canonicalize s = strip s"
proof -
  have sub: "\<forall>c\<in>set (strip s). settled c"
    using assms set_strip by blast
  then have l: "lower (strip s) = strip s"
    by (simp add: lower_settled settled_def)
  have n: "\<And>p. p \<in> special \<Longrightarrow> p \<notin> set (strip s)"
    using sub by (auto simp add: settled_def)
  show ?thesis
    by (simp add: canonicalize_def l replace_absent n special_def)
qed

lemma canonicalize_twice: "canonicalize (canonicalize s) = strip (canonicalize s)"
  by (rule canonicalize_settled) (simp add: settled_canonicalize)

lemma strip_no_space: "\<forall>c\<in>set s. \<not> is_space c \<Longrightarrow> strip s = s"
proof -
  assume a: "\<forall>c\<in>set s. \<not> is_space c"
  have d: "\<And>xs. \<forall>c\<in>set xs. \<not> is_space c \<Longrightarrow> dropWhile is_space xs = xs"
    by (case_tac xs) auto
  have "dropWhile is_space s = s" using a by (rule d)
  moreover have "dropWhile is_space (rev s) = rev s" using a by (intro d) simp
  ultimately show ?thesis by (simp add: strip_def)
qed

lemma canonicalize_no_space:
  assumes "\<forall>c\<in>set s. is_space c \<longrightarrow> c = CHR '' ''"
  shows "\<forall>c\<in>set (canonicalize s). \<not> is_space c"
proof
  fix c assume c: "c \<in> set (canonicalize s)"
  then have ns: "c \<noteq> CHR '' ''"
    using settled_canonicalize [OF c] by (auto simp add: settled_def special_def)
  from c have "c \<in> set (lower (strip s)) \<or> c \<in> set ''and'' \<or> c \<in> set ''_''"
    by (auto simp add: canonicalize_def set_replace split: if_splits)
  then show "\<not> is_space c"
  proof (elim disjE)
    assume "c \<in> set (lower (strip s))"
    then obtain d where d: "d \<in> set (strip s)" "c = lower_char d"
      by (auto simp add: lower_def)
    then have "d \<in> set s" using set_strip by blast
    show ?thesis
    proof
      assume "is_space c"
      then have "is_space d" by (simp add: d is_space_lower_char)
      then have "d = CHR '' ''" using assms \<open>d \<in> set s\<close> by blast
      then have "c = CHR '' ''" by (simp add: d lower_char_def)
      with ns show False by simp
    qed
  qed (auto simp add: is_space_def)
qed

lemma canonicalize_idem_spaces:
  assumes "\<forall>c\<in>set s. is_space c \<longrightarrow> c = CHR '' ''"
  shows "canonicalize (canonicalize s) = canonicalize s"
  by (simp add: canonicalize_twice strip_no_space canonicalize_no_space [OF assms])

text \<open>
  C4 (as stated): canonicalization is idempotent for every raw label. It is not: the
  chain strips white space first and removes \<^verbatim>\<open>?\<close>, \<^verbatim>\<open>.\<close>, \<^verbatim>\<open>!\<close> and the double quote
  afterwards, so a tab behind a leading \<^verbatim>\<open>?\<close> survives the first pass and is stripped
  by the second.
\<close>

theorem canonicalize_not_idempotent:
  "canonicalize (canonicalize [CHR ''?'', CHR 0x09, CHR ''a''])
     \<noteq> canonicalize [CHR ''?'', CHR 0x09, CHR ''a'']"
  by code_simp

text \<open>
  C4 (amended): a second pass does nothing but strip the white space the first pass
  left at the ends, and canonicalization is idempotent on every raw label whose only
  white space is the space character.
\<close>

theorem canonicalize_idempotent_on_spaces:
  "canonicalize (canonicalize x) = strip (canonicalize x) \<and>
   ((\<forall>c\<in>set x. is_space c \<longrightarrow> c = CHR '' '') \<longrightarrow>
      canonicalize (canonicalize x) = canonicalize x)"
proof (intro conjI impI)
  show "canonicalize (canonicalize x) = strip (canonicalize x)"
    by (rule canonicalize_twice)
next
  assume "\<forall>c\<in>set x. is_space c \<longrightarrow> c = CHR '' ''"
  then show "canonicalize (canonicalize x) = canonicalize x"
    by (rule canonicalize_idem_spaces)
qed

theorem canonicalize_idempotent_on_spaces_witness:
  "canonicalize '' Name of Organisation? '' = ''name_of_organisation'' \<and>
   canonicalize (canonicalize '' Name of Organisation? '')
     = canonicalize '' Name of Organisation? ''"
proof -
  have h: "\<forall>c\<in>set '' Name of Organisation? ''. is_space c \<longrightarrow> c = CHR '' ''"
    by (simp add: is_space_def)
  have v: "canonicalize '' Name of Organisation? '' = ''name_of_organisation''"
    by code_simp
  from h v canonicalize_idempotent_on_spaces [of "'' Name of Organisation? ''"]
  show ?thesis by blast
qed

section \<open>Reading the export\<close>

lemma length_pad: "length l \<le> w \<Longrightarrow> length (pad w l) = w"
  by (simp add: pad_def)

lemma keep_lines_bound:
  "l \<in> set (keep_lines (table_width hdr body) body) \<Longrightarrow> length l \<le> table_width hdr body"
  by (cases body) (auto simp add: keep_lines_def table_width_def)

lemma table_width_ge: "length hdr \<le> table_width hdr body"
  by (cases body) (auto simp add: table_width_def)

lemma field_table_row:
  "r \<in> set (field_table hdr body) \<Longrightarrow> length r = length hdr"
  using table_width_ge [of hdr body]
  by (auto simp add: field_table_def Let_def length_pad keep_lines_bound)

lemma length_field_table:
  "length (field_table hdr body)
     = length body - length (filter (\<lambda>l. table_width hdr body < length l) (tl body))"
proof (cases body)
  case Nil
  then show ?thesis by (simp add: field_table_def keep_lines_def)
next
  case (Cons l ls)
  define w where "w = table_width hdr body"
  have "length (filter (\<lambda>x. length x \<le> w) ls) + length (filter (\<lambda>x. w < length x) ls) = length ls"
    using sum_length_filter_compl [of "\<lambda>x. length x \<le> w" ls] by (simp add: not_le)
  then have "Suc (length (filter (\<lambda>x. length x \<le> w) ls))
      = Suc (length ls) - length (filter (\<lambda>x. w < length x) ls)"
    by arith
  then show ?thesis
    using Cons by (simp add: field_table_def keep_lines_def Let_def w_def)
qed

lemma length_convert_fields: "length (convert_fields f tab) = length tab"
  by (simp add: convert_fields_def)

lemma convert_fields_row:
  "r \<in> set (convert_fields f tab) \<Longrightarrow> \<exists>t\<in>set tab. length r = length t"
  by (auto simp add: convert_fields_def)

lemma read_csv_Cons:
  "read_csv env (hdr # body)
     = Inr \<lparr>columns = hdr, rows = convert_fields (infer env) (field_table hdr body)\<rparr>"
  by (simp add: read_csv_def)

lemma read_csv_rectangular:
  assumes "read_csv env ls = Inr df"
  shows "rectangular df"
proof (cases ls)
  case Nil
  with assms show ?thesis by (simp add: read_csv_def)
next
  case (Cons hdr body)
  with assms have df: "df = \<lparr>columns = hdr, rows = convert_fields (infer env) (field_table hdr body)\<rparr>"
    by (simp add: read_csv_def)
  have "length r = length hdr" if "r \<in> set (convert_fields (infer env) (field_table hdr body))" for r
    using convert_fields_row [OF that] field_table_row by fastforce
  then show ?thesis by (simp add: df rectangular_def list_all_iff)
qed



lemma long_row_is_skipped:
  "read_csv sample_env [[''Gender'', ''Region''], [''Female'', ''North''], [''Male'', ''South'', ''x'']]
     = Inr \<lparr>columns = [''Gender'', ''Region''],
            rows = [[Parsed (Some ''Female''), Parsed (Some ''North'')]]\<rparr>"
  by code_simp


section \<open>The transformer\<close>

lemma lookup_Nil: "lookup [] d = []"
  by (simp add: lookup_def)

lemma lookup_Cons: "lookup ((l, c) # s) d = (if l = d then [c] else []) @ lookup s d"
  by (simp add: lookup_def)

lemma lookup_append: "lookup (s @ t) d = lookup s d @ lookup t d"
  by (simp add: lookup_def)

lemma lookup_absent: "d \<notin> set cols \<Longrightarrow> lookup (zip cols r) d = []"
  by (auto simp add: lookup_def filter_empty_conv dest: set_zip_leftD)

lemma lookup_unique:
  assumes "length cols = length r" "count_list cols d = 1" "j < length cols" "cols ! j = d"
  shows "lookup (zip cols r) d = [r ! j]"
  using assms
proof (induction cols r arbitrary: j rule: list_induct2)
  case Nil
  then show ?case by simp
next
  case (Cons c cs x xs)
  show ?case
  proof (cases "c = d")
    case True
    with Cons.prems have "count_list cs d = 0" by simp
    then have n: "d \<notin> set cs" by (simp add: count_list_0_iff)
    with Cons.prems have "j = 0" by (cases j) auto
    with True n show ?thesis by (simp add: lookup_Cons lookup_absent)
  next
    case False
    with Cons.prems obtain k where k: "j = Suc k" by (cases j) auto
    with Cons.prems False Cons.IH [of k] show ?thesis by (simp add: lookup_Cons)
  qed
qed

lemma lookup_overwrite_other:
  "d \<noteq> key \<Longrightarrow>
     lookup (zip cols (map (\<lambda>(l, c). if l = key then v else c) (zip cols r))) d
       = lookup (zip cols r) d"
proof (induction cols arbitrary: r)
  case Nil
  then show ?case by simp
next
  case (Cons c cs)
  then show ?case by (cases r) (auto simp add: lookup_Cons lookup_Nil)
qed

lemma lookup_overwrite_key:
  "lookup (zip cols (map (\<lambda>(l, c). if l = key then v else c) (zip cols r))) key
     = map (\<lambda>c. v) (lookup (zip cols r) key)"
proof (induction cols arbitrary: r)
  case Nil
  then show ?case by (simp add: lookup_Nil)
next
  case (Cons c cs)
  then show ?case by (cases r) (auto simp add: lookup_Cons lookup_Nil)
qed

lemma zip_map_self: "zip xs (map f xs) = map (\<lambda>x. (x, f x)) xs"
  by (induction xs) auto

lemma zip_replicate_self: "zip xs (replicate (length xs) y) = map (\<lambda>x. (x, y)) xs"
  by (induction xs) auto

lemma rectangularD: "rectangular df \<Longrightarrow> r \<in> set (rows df) \<Longrightarrow> length r = length (columns df)"
  by (simp add: rectangular_def list_all_iff)

lemma df_get_unique:
  assumes "rectangular df" "count_list (columns df) key = 1" "j < length (columns df)"
    "columns df ! j = key"
  shows "df_get df key = Column (map (\<lambda>r. r ! j) (rows df))"
proof -
  have "key \<in> set (columns df)" using assms(3,4) by auto
  moreover have "concat (map (\<lambda>r. lookup (zip (columns df) r) key) (rows df))
      = map (\<lambda>r. r ! j) (rows df)"
  proof -
    have "lookup (zip (columns df) r) key = [r ! j]" if "r \<in> set (rows df)" for r
      using assms rectangularD [OF assms(1) that] by (intro lookup_unique) auto
    then have e: "map (\<lambda>r. lookup (zip (columns df) r) key) (rows df) = map (\<lambda>r. [r ! j]) (rows df)"
      by simp
    have c: "concat (map (\<lambda>r. [f r]) xs) = map f xs" for f :: "'a cell list \<Rightarrow> 'a cell" and xs
      by (induction xs) auto
    show ?thesis unfolding e by (rule c)
  qed
  ultimately show ?thesis using assms(2) by (simp add: df_get_def)
qed

lemma convert_timestamp_present:
  assumes "rectangular df" "count_list (columns df) key = 1" "j < length (columns df)"
    "columns df ! j = key"
  shows "convert_timestamp env key df =
     Inr (df\<lparr>rows := map (\<lambda>r. map (\<lambda>(l, c). if l = key
                 then coerce (parse_datetime env) (map (\<lambda>r. r ! j) (rows df)) (r ! j) else c)
               (zip (columns df) r)) (rows df)\<rparr>)"
proof -
  have "key \<in> set (columns df)" using assms(3,4) by auto
  then show ?thesis
    by (simp add: convert_timestamp_def to_datetime_def df_get_unique [OF assms] setitem_def
        zip_map_self comp_def)
qed

lemma convert_timestamp_absent:
  assumes "key \<notin> set (columns df)"
  shows "convert_timestamp env key df =
     Inr \<lparr>columns = columns df @ [key], rows = map (\<lambda>r. r @ [PyNone]) (rows df)\<rparr>"
  using assms
  by (simp add: convert_timestamp_def to_datetime_def df_get_def setitem_def
      zip_replicate_self comp_def)

lemma convert_timestamp_repeated:
  assumes "1 < count_list (columns df) key"
  shows "convert_timestamp env key df = Inl ValueError"
proof -
  from assms have "key \<in> set (columns df)"
    by (metis count_list_0_iff not_less_zero)
  with assms show ?thesis
    by (simp add: convert_timestamp_def to_datetime_def df_get_def)
qed

lemma count_list_le_1:
  assumes "count_list cols key \<le> 1" "key \<in> set cols"
  obtains j where "j < length cols" "cols ! j = key" "count_list cols key = 1"
proof -
  from assms(2) have "count_list cols key \<noteq> 0" by (simp add: count_list_0_iff)
  with assms(1) have "count_list cols key = 1" by simp
  moreover from assms(2) obtain j where "j < length cols" "cols ! j = key"
    by (auto simp add: in_set_conv_nth)
  ultimately show ?thesis using that by blast
qed

lemma convert_timestamp_effect:
  assumes r: "rectangular df" and c: "count_list (columns df) key \<le> 1"
  shows "\<exists>df'. convert_timestamp env key df = Inr df' \<and> rectangular df' \<and>
     length (rows df') = length (rows df) \<and>
     columns df' = (if key \<in> set (columns df) then columns df else columns df @ [key]) \<and>
     (\<forall>i<length (rows df).
        (\<forall>d. d \<noteq> key \<longrightarrow>
           lookup (zip (columns df') (rows df' ! i)) d
             = lookup (zip (columns df) (rows df ! i)) d) \<and>
        (\<forall>j<length (columns df). columns df ! j \<noteq> key \<longrightarrow>
           rows df' ! i ! j = rows df ! i ! j) \<and>
        (key \<notin> set (columns df) \<longrightarrow>
           lookup (zip (columns df') (rows df' ! i)) key = [PyNone]) \<and>
        (\<forall>j<length (columns df). columns df ! j = key \<longrightarrow>
           lookup (zip (columns df') (rows df' ! i)) key
             = [coerce (parse_datetime env) (map (\<lambda>r. r ! j) (rows df)) (rows df ! i ! j)]))"
proof (cases "key \<in> set (columns df)")
  case False
  let ?df' = "\<lparr>columns = columns df @ [key], rows = map (\<lambda>r. r @ [PyNone]) (rows df)\<rparr>"
  have len: "length (columns df) = length (rows df ! i)" if "i < length (rows df)" for i
    using rectangularD [OF r, of "rows df ! i"] that by simp
  have "convert_timestamp env key df = Inr ?df'"
    using False by (rule convert_timestamp_absent)
  moreover have "rectangular ?df'"
    using r by (simp add: rectangular_def list_all_iff)
  moreover have "\<forall>j<length (columns df). columns df ! j \<noteq> key"
    using False by auto
  ultimately show ?thesis
    using False len
    by (auto simp add: lookup_append lookup_Cons lookup_Nil lookup_absent nth_append)
next
  case True
  with c obtain j where j: "j < length (columns df)" "columns df ! j = key"
    "count_list (columns df) key = 1"
    by (rule count_list_le_1)
  let ?col = "map (\<lambda>r. r ! j) (rows df)"
  let ?g = "\<lambda>r (l, c). if l = key then coerce (parse_datetime env) ?col (r ! j) else c"
  let ?df' = "df\<lparr>rows := map (\<lambda>r. map (?g r) (zip (columns df) r)) (rows df)\<rparr>"
  have len: "length (columns df) = length (rows df ! i)" if "i < length (rows df)" for i
    using rectangularD [OF r, of "rows df ! i"] that by simp
  have same: "j' = j" if "j' < length (columns df)" "columns df ! j' = key" for j'
  proof -
    let ?n = "length (columns df)"
    have "lookup (zip (columns df) [0..<?n]) key = [[0..<?n] ! j]"
      using j by (intro lookup_unique) auto
    moreover have "lookup (zip (columns df) [0..<?n]) key = [[0..<?n] ! j']"
      using j that by (intro lookup_unique) auto
    ultimately show ?thesis using j(1) that(1) by simp
  qed
  have conv: "convert_timestamp env key df = Inr ?df'"
    using r j(3) j(1) j(2) by (rule convert_timestamp_present)
  moreover have "rectangular ?df'"
    using r by (auto simp add: rectangular_def list_all_iff)
  moreover have "lookup (zip (columns df) (map (?g (rows df ! i)) (zip (columns df) (rows df ! i)))) d
      = lookup (zip (columns df) (rows df ! i)) d" if "d \<noteq> key" for d i
    using that lookup_overwrite_other [of d key "columns df"
        "coerce (parse_datetime env) ?col (rows df ! i ! j)" "rows df ! i"]
    by (simp add: split_def)
  moreover have "lookup (zip (columns df) (map (?g (rows df ! i)) (zip (columns df) (rows df ! i)))) key
      = [coerce (parse_datetime env) ?col (rows df ! i ! j)]" if "i < length (rows df)" for i
    using lookup_overwrite_key [of "columns df" key
        "coerce (parse_datetime env) ?col (rows df ! i ! j)" "rows df ! i"]
      lookup_unique [OF len [OF that] j(3) j(1) j(2)]
    by (simp add: split_def)
  ultimately show ?thesis
    using True len same by (auto simp add: split_def)
qed

lemma map_nth_cong:
  assumes "length xs = length ys" "\<And>i. i < length xs \<Longrightarrow> xs ! i ! j = ys ! i ! j"
  shows "map (\<lambda>r. r ! j) xs = map (\<lambda>r. r ! j) ys"
  using assms by (intro nth_equalityI) auto

lemma transform_effect:
  assumes s: "count_list (working_labels hdr) ''start_time'' \<le> 1"
      and e: "count_list (working_labels hdr) ''end_time'' \<le> 1"
  shows "\<exists>df0 df. read_csv env (hdr # body) = Inr df0 \<and> transform env (hdr # body) = Inr df \<and>
     rectangular df \<and> length (rows df) = length (rows df0) \<and>
     columns df = working_labels hdr
        @ (if ''start_time'' \<in> set (working_labels hdr) then [] else [''start_time''])
        @ (if ''end_time'' \<in> set (working_labels hdr) then [] else [''end_time'']) \<and>
     (\<forall>i<length (rows df0).
        (\<forall>d. d \<noteq> ''start_time'' \<and> d \<noteq> ''end_time'' \<longrightarrow>
           lookup (zip (columns df) (rows df ! i)) d
             = lookup (zip (working_labels hdr) (rows df0 ! i)) d) \<and>
        (\<forall>j<length hdr. working_labels hdr ! j \<noteq> ''start_time'' \<and>
             working_labels hdr ! j \<noteq> ''end_time'' \<longrightarrow>
           rows df ! i ! j = rows df0 ! i ! j) \<and>
        (\<forall>key. key = ''start_time'' \<or> key = ''end_time'' \<longrightarrow>
           (key \<notin> set (working_labels hdr) \<longrightarrow>
              lookup (zip (columns df) (rows df ! i)) key = [PyNone]) \<and>
           (\<forall>j<length hdr. working_labels hdr ! j = key \<longrightarrow>
              lookup (zip (columns df) (rows df ! i)) key
                = [coerce (parse_datetime env) (map (\<lambda>r. r ! j) (rows df0)) (rows df0 ! i ! j)])))"
proof -
  let ?R = "working_labels hdr"
  define df0 :: "'a dataframe" where
    "df0 = \<lparr>columns = hdr, rows = convert_fields (infer env) (field_table hdr body)\<rparr>"
  define dfR where "dfR = rename_columns (clean_columns df0)"
  have r0: "read_csv env (hdr # body) = Inr df0"
    by (simp add: read_csv_Cons df0_def)
  have R: "columns dfR = ?R" "rows dfR = rows df0"
    by (simp_all add: dfR_def rename_columns_def clean_columns_def working_labels_def df0_def)
  have lenR: "length ?R = length hdr" by (simp add: working_labels_def)
  have rectR: "rectangular dfR"
    using read_csv_rectangular [OF r0] R lenR by (simp add: rectangular_def df0_def)
  note E1 = convert_timestamp_effect [OF rectR, of "''start_time''" env, unfolded R, OF s]
  from E1 obtain df1 where
    c1: "convert_timestamp env ''start_time'' dfR = Inr df1" and
    rect1: "rectangular df1" and
    len1: "length (rows df1) = length (rows df0)" and
    cols1: "columns df1 = (if ''start_time'' \<in> set ?R then ?R else ?R @ [''start_time''])" and
    eff1: "\<forall>i<length (rows df0).
        (\<forall>d. d \<noteq> ''start_time'' \<longrightarrow>
           lookup (zip (columns df1) (rows df1 ! i)) d = lookup (zip ?R (rows df0 ! i)) d) \<and>
        (\<forall>j<length ?R. ?R ! j \<noteq> ''start_time'' \<longrightarrow> rows df1 ! i ! j = rows df0 ! i ! j) \<and>
        (''start_time'' \<notin> set ?R \<longrightarrow>
           lookup (zip (columns df1) (rows df1 ! i)) ''start_time'' = [PyNone]) \<and>
        (\<forall>j<length ?R. ?R ! j = ''start_time'' \<longrightarrow>
           lookup (zip (columns df1) (rows df1 ! i)) ''start_time''
             = [coerce (parse_datetime env) (map (\<lambda>r. r ! j) (rows df0)) (rows df0 ! i ! j)])"
    by blast
  have cnt1: "count_list (columns df1) ''end_time'' \<le> 1"
    using e by (simp add: cols1)
  have in1: "''end_time'' \<in> set (columns df1) \<longleftrightarrow> ''end_time'' \<in> set ?R"
    by (simp add: cols1)
  from convert_timestamp_effect [OF rect1 cnt1, of env] obtain df where
    c2: "convert_timestamp env ''end_time'' df1 = Inr df" and
    rect2: "rectangular df" and
    len2: "length (rows df) = length (rows df1)" and
    cols2: "columns df = (if ''end_time'' \<in> set (columns df1) then columns df1
                          else columns df1 @ [''end_time''])" and
    eff2: "\<forall>i<length (rows df1).
        (\<forall>d. d \<noteq> ''end_time'' \<longrightarrow>
           lookup (zip (columns df) (rows df ! i)) d = lookup (zip (columns df1) (rows df1 ! i)) d) \<and>
        (\<forall>j<length (columns df1). columns df1 ! j \<noteq> ''end_time'' \<longrightarrow>
           rows df ! i ! j = rows df1 ! i ! j) \<and>
        (''end_time'' \<notin> set (columns df1) \<longrightarrow>
           lookup (zip (columns df) (rows df ! i)) ''end_time'' = [PyNone]) \<and>
        (\<forall>j<length (columns df1). columns df1 ! j = ''end_time'' \<longrightarrow>
           lookup (zip (columns df) (rows df ! i)) ''end_time''
             = [coerce (parse_datetime env) (map (\<lambda>r. r ! j) (rows df1)) (rows df1 ! i ! j)])"
    by blast
  have tr: "transform env (hdr # body) = Inr df"
    using r0 c1 c2 by (simp add: transform_def dfR_def)
  have cols: "columns df = ?R
        @ (if ''start_time'' \<in> set ?R then [] else [''start_time''])
        @ (if ''end_time'' \<in> set ?R then [] else [''end_time''])"
    by (simp add: cols2 cols1)
  have nth1: "columns df1 ! j = ?R ! j" if "j < length hdr" for j
    using that lenR by (simp add: cols1 nth_append)
  have lt1: "j < length (columns df1)" if "j < length hdr" for j
    using that lenR by (simp add: cols1)
  have ctx: "map (\<lambda>r. r ! j) (rows df1) = map (\<lambda>r. r ! j) (rows df0)"
    if "j < length hdr" "?R ! j \<noteq> ''start_time''" for j
    using that eff1 len1 lenR by (intro map_nth_cong) auto
  have "(\<forall>d. d \<noteq> ''start_time'' \<and> d \<noteq> ''end_time'' \<longrightarrow>
           lookup (zip (columns df) (rows df ! i)) d = lookup (zip ?R (rows df0 ! i)) d) \<and>
        (\<forall>j<length hdr. ?R ! j \<noteq> ''start_time'' \<and> ?R ! j \<noteq> ''end_time'' \<longrightarrow>
           rows df ! i ! j = rows df0 ! i ! j) \<and>
        (\<forall>key. key = ''start_time'' \<or> key = ''end_time'' \<longrightarrow>
           (key \<notin> set ?R \<longrightarrow> lookup (zip (columns df) (rows df ! i)) key = [PyNone]) \<and>
           (\<forall>j<length hdr. ?R ! j = key \<longrightarrow>
              lookup (zip (columns df) (rows df ! i)) key
                = [coerce (parse_datetime env) (map (\<lambda>r. r ! j) (rows df0)) (rows df0 ! i ! j)]))"
    if i: "i < length (rows df0)" for i
  proof -
    from i len1 have i1: "i < length (rows df1)" by simp
    note a = eff1 [rule_format, OF i] and b = eff2 [rule_format, OF i1]
    have other: "lookup (zip (columns df) (rows df ! i)) d = lookup (zip ?R (rows df0 ! i)) d"
      if "d \<noteq> ''start_time''" "d \<noteq> ''end_time''" for d
      using a b that by simp
    have pos: "rows df ! i ! j = rows df0 ! i ! j"
      if "j < length hdr" "?R ! j \<noteq> ''start_time''" "?R ! j \<noteq> ''end_time''" for j
      using a b that nth1 [OF that(1)] lt1 [OF that(1)] lenR by simp
    have st: "lookup (zip (columns df) (rows df ! i)) ''start_time''
        = lookup (zip (columns df1) (rows df1 ! i)) ''start_time''"
      using b by simp
    have st_abs: "lookup (zip (columns df) (rows df ! i)) ''start_time'' = [PyNone]"
      if "''start_time'' \<notin> set ?R"
      using a that st by simp
    have st_pre: "lookup (zip (columns df) (rows df ! i)) ''start_time''
        = [coerce (parse_datetime env) (map (\<lambda>r. r ! j) (rows df0)) (rows df0 ! i ! j)]"
      if "j < length hdr" "?R ! j = ''start_time''" for j
      using a that st lenR by simp
    have en_abs: "lookup (zip (columns df) (rows df ! i)) ''end_time'' = [PyNone]"
      if "''end_time'' \<notin> set ?R"
      using b that in1 by simp
    have en_pre: "lookup (zip (columns df) (rows df ! i)) ''end_time''
        = [coerce (parse_datetime env) (map (\<lambda>r. r ! j) (rows df0)) (rows df0 ! i ! j)]"
      if "j < length hdr" "?R ! j = ''end_time''" for j
    proof -
      from that have ns: "?R ! j \<noteq> ''start_time''" by simp
      have "rows df1 ! i ! j = rows df0 ! i ! j"
        using a that ns lenR by simp
      moreover have "columns df1 ! j = ''end_time''"
        using nth1 [OF that(1)] that(2) by simp
      ultimately show ?thesis
        using b lt1 [OF that(1)] ctx [OF that(1) ns] by simp
    qed
    show ?thesis
    proof (intro conjI allI impI)
      fix d assume "d \<noteq> ''start_time'' \<and> d \<noteq> ''end_time''"
      then show "lookup (zip (columns df) (rows df ! i)) d = lookup (zip ?R (rows df0 ! i)) d"
        using other by blast
    next
      fix j assume "j < length hdr" "?R ! j \<noteq> ''start_time'' \<and> ?R ! j \<noteq> ''end_time''"
      then show "rows df ! i ! j = rows df0 ! i ! j"
        using pos by blast
    next
      fix key assume "key = ''start_time'' \<or> key = ''end_time''" "key \<notin> set ?R"
      then show "lookup (zip (columns df) (rows df ! i)) key = [PyNone]"
        using st_abs en_abs by blast
    next
      fix key j assume "key = ''start_time'' \<or> key = ''end_time''" "j < length hdr" "?R ! j = key"
      then show "lookup (zip (columns df) (rows df ! i)) key
          = [coerce (parse_datetime env) (map (\<lambda>r. r ! j) (rows df0)) (rows df0 ! i ! j)]"
        using st_pre en_pre by blast
    qed
  qed
  note per_row = this
  have len: "length (rows df) = length (rows df0)" using len1 len2 by simp
  show ?thesis
    apply (rule exI [of _ df0])
    apply (rule exI [of _ df])
    apply (intro conjI)
    apply (rule r0)
    apply (rule tr)
    apply (rule rect2)
    apply (rule len)
    apply (rule cols)
    apply (intro allI impI)
    apply (rule per_row)
    apply assumption
    done
qed

lemma field_insert_params:
  "d \<in> set INSERT_COLUMNS \<Longrightarrow> field (insert_params row) d = Some (row_get row d)"
  by (auto simp add: field_def INSERT_COLUMNS_def insert_params_def)

lemma row_get_single: "lookup row d = [c] \<Longrightarrow> row_get row d = Scalar c"
  by (simp add: row_get_def)


lemma row_get_cong: "lookup row d = lookup row' d \<Longrightarrow> row_get row d = row_get row' d"
  by (simp add: row_get_def)

lemma normalized_records_nth:
  "i < length (rows df) \<Longrightarrow>
     normalized_records df ! i = insert_params (zip (columns df) (rows df ! i))"
  by (simp add: normalized_records_def iterrows_def)

lemma length_normalized_records: "length (normalized_records df) = length (rows df)"
  by (simp add: normalized_records_def iterrows_def)


lemma lookup_without_label: "d \<noteq> x \<Longrightarrow> lookup (without_label x row) d = lookup row d"
  by (induction row) (auto simp add: lookup_def without_label_def)

lemma insert_params_without_label:
  assumes "x \<notin> set INSERT_COLUMNS"
  shows "insert_params (without_label x row) = insert_params row"
proof -
  have "row_get (without_label x row) d = row_get row d" if "d \<in> set INSERT_COLUMNS" for d
    using that assms by (intro row_get_cong lookup_without_label) auto
  then show ?thesis
    by (simp add: insert_params_def INSERT_COLUMNS_def)
qed

lemma rename_label_other: "map_of COLUMN_MAPPING l = None \<Longrightarrow> rename_label l = l"
  by (simp add: rename_label_def)

lemma rename_label_key: "map_of COLUMN_MAPPING l = Some d \<Longrightarrow> rename_label l = d"
  by (simp add: rename_label_def)

lemma mapping_values: "map_of COLUMN_MAPPING l = Some d \<Longrightarrow> d \<in> set INSERT_COLUMNS"
  by (auto simp add: COLUMN_MAPPING_def INSERT_COLUMNS_def split: if_splits)

lemma working_labels_nth:
  "j < length hdr \<Longrightarrow> working_labels hdr ! j = rename_label (canonicalize (hdr ! j))"
  by (simp add: working_labels_def)

lemma transform_facts:
  assumes s: "count_list (working_labels hdr) ''start_time'' \<le> 1"
      and e: "count_list (working_labels hdr) ''end_time'' \<le> 1"
  obtains df0 df where
    "read_csv env (hdr # body) = Inr df0"
    "transform env (hdr # body) = Inr df"
    "rectangular df"
    "length (rows df) = length (rows df0)"
    "columns df = working_labels hdr
        @ (if ''start_time'' \<in> set (working_labels hdr) then [] else [''start_time''])
        @ (if ''end_time'' \<in> set (working_labels hdr) then [] else [''end_time''])"
    "\<And>i d. i < length (rows df0) \<Longrightarrow> d \<noteq> ''start_time'' \<Longrightarrow> d \<noteq> ''end_time'' \<Longrightarrow>
       lookup (zip (columns df) (rows df ! i)) d
         = lookup (zip (working_labels hdr) (rows df0 ! i)) d"
    "\<And>i j. i < length (rows df0) \<Longrightarrow> j < length hdr \<Longrightarrow>
       working_labels hdr ! j \<noteq> ''start_time'' \<Longrightarrow> working_labels hdr ! j \<noteq> ''end_time'' \<Longrightarrow>
       rows df ! i ! j = rows df0 ! i ! j"
    "\<And>i key. i < length (rows df0) \<Longrightarrow> key = ''start_time'' \<or> key = ''end_time'' \<Longrightarrow>
       key \<notin> set (working_labels hdr) \<Longrightarrow>
       lookup (zip (columns df) (rows df ! i)) key = [PyNone]"
    "\<And>i key j. i < length (rows df0) \<Longrightarrow> key = ''start_time'' \<or> key = ''end_time'' \<Longrightarrow>
       j < length hdr \<Longrightarrow> working_labels hdr ! j = key \<Longrightarrow>
       lookup (zip (columns df) (rows df ! i)) key
         = [coerce (parse_datetime env) (map (\<lambda>r. r ! j) (rows df0)) (rows df0 ! i ! j)]"
proof -
  from transform_effect [OF s e, of env body] obtain df0 df where
    a: "read_csv env (hdr # body) = Inr df0" "transform env (hdr # body) = Inr df"
       "rectangular df" "length (rows df) = length (rows df0)"
       "columns df = working_labels hdr
          @ (if ''start_time'' \<in> set (working_labels hdr) then [] else [''start_time''])
          @ (if ''end_time'' \<in> set (working_labels hdr) then [] else [''end_time''])" and
    b: "\<forall>i<length (rows df0).
        (\<forall>d. d \<noteq> ''start_time'' \<and> d \<noteq> ''end_time'' \<longrightarrow>
           lookup (zip (columns df) (rows df ! i)) d
             = lookup (zip (working_labels hdr) (rows df0 ! i)) d) \<and>
        (\<forall>j<length hdr. working_labels hdr ! j \<noteq> ''start_time'' \<and>
             working_labels hdr ! j \<noteq> ''end_time'' \<longrightarrow>
           rows df ! i ! j = rows df0 ! i ! j) \<and>
        (\<forall>key. key = ''start_time'' \<or> key = ''end_time'' \<longrightarrow>
           (key \<notin> set (working_labels hdr) \<longrightarrow>
              lookup (zip (columns df) (rows df ! i)) key = [PyNone]) \<and>
           (\<forall>j<length hdr. working_labels hdr ! j = key \<longrightarrow>
              lookup (zip (columns df) (rows df ! i)) key
                = [coerce (parse_datetime env) (map (\<lambda>r. r ! j) (rows df0)) (rows df0 ! i ! j)]))"
    by blast
  show ?thesis
  proof (rule that [OF a])
    fix i d assume "i < length (rows df0)" "d \<noteq> ''start_time''" "d \<noteq> ''end_time''"
    with b show "lookup (zip (columns df) (rows df ! i)) d
         = lookup (zip (working_labels hdr) (rows df0 ! i)) d" by blast
  next
    fix i j assume "i < length (rows df0)" "j < length hdr"
       "working_labels hdr ! j \<noteq> ''start_time''" "working_labels hdr ! j \<noteq> ''end_time''"
    with b show "rows df ! i ! j = rows df0 ! i ! j" by blast
  next
    fix i key assume "i < length (rows df0)" "key = ''start_time'' \<or> key = ''end_time''"
       "key \<notin> set (working_labels hdr)"
    with b show "lookup (zip (columns df) (rows df ! i)) key = [PyNone]" by blast
  next
    fix i key j assume "i < length (rows df0)" "key = ''start_time'' \<or> key = ''end_time''"
       "j < length hdr" "working_labels hdr ! j = key"
    with b show "lookup (zip (columns df) (rows df ! i)) key
         = [coerce (parse_datetime env) (map (\<lambda>r. r ! j) (rows df0)) (rows df0 ! i ! j)]"
      by blast
  qed
qed

lemma record_field:
  assumes "i < length (rows df)" "d \<in> set INSERT_COLUMNS"
  shows "field (normalized_records df ! i) d = Some (row_get (zip (columns df) (rows df ! i)) d)"
  using assms by (simp add: normalized_records_nth field_insert_params)

lemma record_field_unique:
  assumes "rectangular df" "i < length (rows df)" "d \<in> set INSERT_COLUMNS"
    "count_list (columns df) d = 1" "j < length (columns df)" "columns df ! j = d"
  shows "field (normalized_records df ! i) d = Some (Scalar (rows df ! i ! j))"
proof -
  have "length (columns df) = length (rows df ! i)"
    using rectangularD [OF assms(1), of "rows df ! i"] assms(2) by simp
  from lookup_unique [OF this assms(4,5,6)] show ?thesis
    using assms(2,3) by (simp add: record_field row_get_single)
qed


lemma read_sample: "read_csv sample_env (sample_header # sample_body) = Inr sample_table"
  by code_simp

lemma transform_sample: "transform sample_env (sample_header # sample_body) = Inr sample_result"
  by code_simp

lemma sample_labels: "working_labels sample_header = [''gender'', ''comments'', ''start_time'']"
  by code_simp

lemma sample_counts:
  "count_list (working_labels sample_header) ''start_time'' \<le> 1"
  "count_list (working_labels sample_header) ''end_time'' \<le> 1"
  by (simp_all add: sample_labels)

lemma repeated_label_raises:
  "transform sample_env [[''Start'', ''Start Time''], [''2024-01-01T10:00'', ''2024-01-01T10:30'']]
     = Inl ValueError"
  by code_simp






text \<open>
  C8 (as stated): there are as many records as data rows of the header's arity. The
  input below has one data row, shorter than the header; it yields a record.
\<close>

theorem short_row_is_loaded:
  "map_sum id normalized_records (transform sample_env [[''Gender'', ''Region''], [''Male'']])
     = Inr [[Scalar PyNone, Scalar PyNone, Scalar PyNone, Scalar (Parsed None), Scalar PyNone,
             Scalar PyNone, Scalar (Parsed (Some ''Male'')), Scalar PyNone, Scalar PyNone,
             Scalar PyNone, Scalar PyNone, Scalar PyNone, Scalar PyNone, Scalar PyNone]] \<and>
   consistent_rows [''Gender'', ''Region''] [[''Male'']] = []"
  by code_simp

text \<open>
  C8 (amended): there are as many records as rows in the parsed table, which are the
  data rows except the rows, after the first, that have too many fields; and the
  records are in the order of the parsed table: the \<open>i\<close>-th record is the projection of
  the \<open>i\<close>-th row of the working table, which is the \<open>i\<close>-th parsed row with the cells of
  the two timestamp columns converted.
\<close>

theorem records_follow_rows:
  assumes "count_list (working_labels hdr) ''start_time'' \<le> 1"
      and "count_list (working_labels hdr) ''end_time'' \<le> 1"
  shows "\<exists>df0 df. read_csv env (hdr # body) = Inr df0 \<and> transform env (hdr # body) = Inr df \<and>
    length (normalized_records df) = length (rows df0) \<and>
    length (rows df0)
       = length body - length (filter (\<lambda>l. table_width hdr body < length l) (tl body)) \<and>
    (\<forall>i<length (rows df0).
       normalized_records df ! i = insert_params (zip (columns df) (rows df ! i)) \<and>
       (\<forall>j<length hdr. columns df ! j = working_labels hdr ! j \<and>
          rows df ! i ! j =
            (if working_labels hdr ! j = ''start_time'' \<or> working_labels hdr ! j = ''end_time''
             then coerce (parse_datetime env) (map (\<lambda>r. r ! j) (rows df0)) (rows df0 ! i ! j)
             else rows df0 ! i ! j)))"
proof -
  obtain df0 df where
    rc: "read_csv env (hdr # body) = Inr df0" and
    tr: "transform env (hdr # body) = Inr df" and
    rect: "rectangular df" and
    len: "length (rows df) = length (rows df0)" and
    cols: "columns df = working_labels hdr
        @ (if ''start_time'' \<in> set (working_labels hdr) then [] else [''start_time''])
        @ (if ''end_time'' \<in> set (working_labels hdr) then [] else [''end_time''])" and
    oth: "\<And>i d. i < length (rows df0) \<Longrightarrow> d \<noteq> ''start_time'' \<Longrightarrow> d \<noteq> ''end_time'' \<Longrightarrow>
       lookup (zip (columns df) (rows df ! i)) d
         = lookup (zip (working_labels hdr) (rows df0 ! i)) d" and
    pos: "\<And>i j. i < length (rows df0) \<Longrightarrow> j < length hdr \<Longrightarrow>
       working_labels hdr ! j \<noteq> ''start_time'' \<Longrightarrow> working_labels hdr ! j \<noteq> ''end_time'' \<Longrightarrow>
       rows df ! i ! j = rows df0 ! i ! j" and
    ab: "\<And>i key. i < length (rows df0) \<Longrightarrow> key = ''start_time'' \<or> key = ''end_time'' \<Longrightarrow>
       key \<notin> set (working_labels hdr) \<Longrightarrow>
       lookup (zip (columns df) (rows df ! i)) key = [PyNone]" and
    pr: "\<And>i key j. i < length (rows df0) \<Longrightarrow> key = ''start_time'' \<or> key = ''end_time'' \<Longrightarrow>
       j < length hdr \<Longrightarrow> working_labels hdr ! j = key \<Longrightarrow>
       lookup (zip (columns df) (rows df ! i)) key
         = [coerce (parse_datetime env) (map (\<lambda>r. r ! j) (rows df0)) (rows df0 ! i ! j)]"
    by (rule transform_facts [OF assms, of env body]) (rule that)
  have df0: "df0 = \<lparr>columns = hdr, rows = convert_fields (infer env) (field_table hdr body)\<rparr>"
    using rc by (simp add: read_csv_Cons)
  have lenR: "length (working_labels hdr) = length hdr"
    by (simp add: working_labels_def)
  have len0: "length (working_labels hdr) = length (rows df0 ! i)" if "i < length (rows df0)" for i
    using rectangularD [OF read_csv_rectangular [OF rc], of "rows df0 ! i"] that
    by (simp add: df0 lenR)
  have lenF: "length (columns df) = length (rows df ! i)" if "i < length (rows df0)" for i
    using rectangularD [OF rect, of "rows df ! i"] that len by simp
  have colj: "columns df ! j = working_labels hdr ! j" "j < length (columns df)"
    if "j < length hdr" for j
    using that lenR by (simp_all add: cols nth_append)
  have cnt: "count_list (columns df) d = count_list (working_labels hdr) d"
    if "d \<in> set (working_labels hdr)" for d
    using that by (simp add: cols)
  have a: "length (normalized_records df) = length (rows df0)"
    by (simp add: length_normalized_records len)
  have b: "length (rows df0)
       = length body - length (filter (\<lambda>l. table_width hdr body < length l) (tl body))"
    by (simp add: df0 length_convert_fields length_field_table)
  have c1: "normalized_records df ! i = insert_params (zip (columns df) (rows df ! i))"
    if "i < length (rows df0)" for i
    using that len by (simp add: normalized_records_nth)
  have c2: "rows df ! i ! j =
            (if working_labels hdr ! j = ''start_time'' \<or> working_labels hdr ! j = ''end_time''
             then coerce (parse_datetime env) (map (\<lambda>r. r ! j) (rows df0)) (rows df0 ! i ! j)
             else rows df0 ! i ! j)"
    if i: "i < length (rows df0)" and j: "j < length hdr" for i j
  proof (cases "working_labels hdr ! j = ''start_time'' \<or> working_labels hdr ! j = ''end_time''")
    case False
    then show ?thesis using pos [OF i j] by simp
  next
    case True
    define key where "key = working_labels hdr ! j"
    have k: "key = ''start_time'' \<or> key = ''end_time''" using True by (simp add: key_def)
    have mem: "key \<in> set (working_labels hdr)" using j lenR by (simp add: key_def)
    have "count_list (working_labels hdr) key \<le> 1" using k assms by auto
    with mem have "count_list (working_labels hdr) key = 1"
      by (metis count_list_0_iff le_neq_implies_less less_one)
    then have one: "count_list (columns df) key = 1" using cnt [OF mem] by simp
    have "lookup (zip (columns df) (rows df ! i)) key = [rows df ! i ! j]"
      using lenF [OF i] one colj [OF j] by (intro lookup_unique) (simp_all add: key_def)
    with pr [OF i k j] True show ?thesis by (simp add: key_def)
  qed
  show ?thesis
    apply (rule exI [of _ df0])
    apply (rule exI [of _ df])
    apply (intro conjI)
    apply (rule rc)
    apply (rule tr)
    apply (rule a)
    apply (rule b)
    apply (intro allI impI conjI)
    apply (erule c1)
    apply (erule colj(1))
    apply (erule (1) c2)
    done
qed

theorem records_follow_rows_witness:
  "length (normalized_records (projr (transform sample_env (sample_header # sample_body)))) = 2 \<and>
   rows (projr (transform sample_env (sample_header # sample_body))) ! 1 ! 0 = Parsed (Some ''Female'') \<and>
   rows (projr (transform sample_env (sample_header # sample_body))) ! 1 ! 2 = NaT"
proof -
  from records_follow_rows [OF sample_counts, of sample_env sample_body] obtain df0 df where
    rc: "read_csv sample_env (sample_header # sample_body) = Inr df0" and
    tr: "transform sample_env (sample_header # sample_body) = Inr df" and
    f0: "length (normalized_records df) = length (rows df0)" and
    f1: "length (rows df0)
       = length sample_body - length (filter (\<lambda>l. table_width sample_header sample_body < length l) (tl sample_body))" and
    f2: "(\<forall>i<length (rows df0).
       normalized_records df ! i = insert_params (zip (columns df) (rows df ! i)) \<and>
       (\<forall>j<length sample_header. columns df ! j = working_labels sample_header ! j \<and>
          rows df ! i ! j =
            (if working_labels sample_header ! j = ''start_time'' \<or> working_labels sample_header ! j = ''end_time''
             then coerce (parse_datetime sample_env) (map (\<lambda>r. r ! j) (rows df0)) (rows df0 ! i ! j)
             else rows df0 ! i ! j)))"
    by blast
  have df0: "df0 = sample_table" using rc by (simp add: read_sample)
  have df: "df = sample_result" using tr by (simp add: transform_sample)
  have len: "length (rows df0) = 2" "length sample_header = 3"
    by (simp_all add: df0 sample_table_def sample_header_def)
  have a: "length (normalized_records df) = 2" using f0 len by simp
  have b: "rows df ! 1 ! 0 = Parsed (Some ''Female'')"
    using f2 [rule_format, of 1, THEN conjunct2, rule_format, of 0, THEN conjunct2] len
    by (simp add: sample_labels df0 sample_table_def)
  have c: "rows df ! 1 ! 2 = NaT"
    using f2 [rule_format, of 1, THEN conjunct2, rule_format, of 2, THEN conjunct2] len
    by (simp add: sample_labels df0 sample_table_def coerce_def sample_env_def sample_parser_def)
  from a b c show ?thesis by (simp add: tr)
qed

text \<open>
  C6 (as stated): a canonical label that is no key of the mapping never appears in a
  record. \<^verbatim>\<open>consent\<close> is no key of the mapping (it is the name a key is mapped to), the
  rename leaves it alone, and the projection reads it: its value is written.
\<close>

theorem unmapped_label_is_loaded:
  "map_of COLUMN_MAPPING (canonicalize ''Consent'') = None \<and>
   map_sum id normalized_records (transform sample_env [[''Consent''], [''yes'']])
     = Inr [[Scalar PyNone, Scalar PyNone, Scalar PyNone, Scalar PyNone,
             Scalar PyNone, Scalar PyNone, Scalar PyNone, Scalar PyNone, Scalar PyNone,
             Scalar PyNone, Scalar PyNone, Scalar PyNone, Scalar PyNone,
             Scalar (Parsed (Some ''yes''))]]"
  by code_simp

text \<open>
  C6 (amended): a column whose canonical label is a key of the mapping is named by the
  mapped destination name, and when no other column has that name every record holds
  the column's cell in the field of that name. A canonical label that is neither a key
  of the mapping nor one of the fourteen destination names keeps its name and is never
  read by the projection: the record is the same without the columns of that label.
\<close>

theorem renaming_is_lookup:
  assumes "count_list (working_labels hdr) ''start_time'' \<le> 1"
      and "count_list (working_labels hdr) ''end_time'' \<le> 1"
  shows "\<exists>df0 df. read_csv env (hdr # body) = Inr df0 \<and> transform env (hdr # body) = Inr df \<and>
    (\<forall>j<length hdr. \<forall>d. map_of COLUMN_MAPPING (canonicalize (hdr ! j)) = Some d \<longrightarrow>
       columns df ! j = d \<and> d \<in> set INSERT_COLUMNS \<and>
       (count_list (working_labels hdr) d = 1 \<longrightarrow>
          (\<forall>i<length (rows df0).
             field (normalized_records df ! i) d = Some (Scalar (rows df ! i ! j))))) \<and>
    (\<forall>x. map_of COLUMN_MAPPING x = None \<and> x \<notin> set INSERT_COLUMNS \<longrightarrow>
       (\<forall>j<length hdr. canonicalize (hdr ! j) = x \<longrightarrow> columns df ! j = x) \<and>
       (\<forall>i<length (rows df0).
          insert_params (without_label x (zip (columns df) (rows df ! i)))
            = normalized_records df ! i))"
proof -
  obtain df0 df where
    rc: "read_csv env (hdr # body) = Inr df0" and
    tr: "transform env (hdr # body) = Inr df" and
    rect: "rectangular df" and
    len: "length (rows df) = length (rows df0)" and
    cols: "columns df = working_labels hdr
        @ (if ''start_time'' \<in> set (working_labels hdr) then [] else [''start_time''])
        @ (if ''end_time'' \<in> set (working_labels hdr) then [] else [''end_time''])" and
    oth: "\<And>i d. i < length (rows df0) \<Longrightarrow> d \<noteq> ''start_time'' \<Longrightarrow> d \<noteq> ''end_time'' \<Longrightarrow>
       lookup (zip (columns df) (rows df ! i)) d
         = lookup (zip (working_labels hdr) (rows df0 ! i)) d" and
    pos: "\<And>i j. i < length (rows df0) \<Longrightarrow> j < length hdr \<Longrightarrow>
       working_labels hdr ! j \<noteq> ''start_time'' \<Longrightarrow> working_labels hdr ! j \<noteq> ''end_time'' \<Longrightarrow>
       rows df ! i ! j = rows df0 ! i ! j" and
    ab: "\<And>i key. i < length (rows df0) \<Longrightarrow> key = ''start_time'' \<or> key = ''end_time'' \<Longrightarrow>
       key \<notin> set (working_labels hdr) \<Longrightarrow>
       lookup (zip (columns df) (rows df ! i)) key = [PyNone]" and
    pr: "\<And>i key j. i < length (rows df0) \<Longrightarrow> key = ''start_time'' \<or> key = ''end_time'' \<Longrightarrow>
       j < length hdr \<Longrightarrow> working_labels hdr ! j = key \<Longrightarrow>
       lookup (zip (columns df) (rows df ! i)) key
         = [coerce (parse_datetime env) (map (\<lambda>r. r ! j) (rows df0)) (rows df0 ! i ! j)]"
    by (rule transform_facts [OF assms, of env body]) (rule that)
  have df0: "df0 = \<lparr>columns = hdr, rows = convert_fields (infer env) (field_table hdr body)\<rparr>"
    using rc by (simp add: read_csv_Cons)
  have lenR: "length (working_labels hdr) = length hdr"
    by (simp add: working_labels_def)
  have len0: "length (working_labels hdr) = length (rows df0 ! i)" if "i < length (rows df0)" for i
    using rectangularD [OF read_csv_rectangular [OF rc], of "rows df0 ! i"] that
    by (simp add: df0 lenR)
  have lenF: "length (columns df) = length (rows df ! i)" if "i < length (rows df0)" for i
    using rectangularD [OF rect, of "rows df ! i"] that len by simp
  have colj: "columns df ! j = working_labels hdr ! j" "j < length (columns df)"
    if "j < length hdr" for j
    using that lenR by (simp_all add: cols nth_append)
  have cnt: "count_list (columns df) d = count_list (working_labels hdr) d"
    if "d \<in> set (working_labels hdr)" for d
    using that by (simp add: cols)
  have a: "columns df ! j = d \<and> d \<in> set INSERT_COLUMNS \<and>
       (count_list (working_labels hdr) d = 1 \<longrightarrow>
          (\<forall>i<length (rows df0).
             field (normalized_records df ! i) d = Some (Scalar (rows df ! i ! j))))"
    if j: "j < length hdr" and d: "map_of COLUMN_MAPPING (canonicalize (hdr ! j)) = Some d" for j d
  proof -
    have w: "working_labels hdr ! j = d"
      using j d by (simp add: working_labels_nth rename_label_key)
    then have mem: "d \<in> set (working_labels hdr)" using j lenR by auto
    have "field (normalized_records df ! i) d = Some (Scalar (rows df ! i ! j))"
      if "count_list (working_labels hdr) d = 1" "i < length (rows df0)" for i
      using rect that len mapping_values [OF d] cnt [OF mem] colj [OF j] w
      by (intro record_field_unique) simp_all
    then show ?thesis
      using colj(1) [OF j] w mapping_values [OF d] by simp
  qed
  have b: "(\<forall>j<length hdr. canonicalize (hdr ! j) = x \<longrightarrow> columns df ! j = x) \<and>
       (\<forall>i<length (rows df0).
          insert_params (without_label x (zip (columns df) (rows df ! i)))
            = normalized_records df ! i)"
    if "map_of COLUMN_MAPPING x = None \<and> x \<notin> set INSERT_COLUMNS" for x
  proof -
    have "columns df ! j = x" if "j < length hdr" "canonicalize (hdr ! j) = x" for j
      using that \<open>map_of COLUMN_MAPPING x = None \<and> x \<notin> set INSERT_COLUMNS\<close> colj(1) [OF that(1)]
      by (simp add: working_labels_nth rename_label_other)
    moreover have "insert_params (without_label x (zip (columns df) (rows df ! i)))
            = normalized_records df ! i" if "i < length (rows df0)" for i
      using that len \<open>map_of COLUMN_MAPPING x = None \<and> x \<notin> set INSERT_COLUMNS\<close>
      by (simp add: normalized_records_nth insert_params_without_label)
    ultimately show ?thesis by blast
  qed
  show ?thesis
    apply (rule exI [of _ df0])
    apply (rule exI [of _ df])
    apply (intro conjI)
    apply (rule rc)
    apply (rule tr)
    apply (intro allI impI)
    apply (erule (1) a)
    apply (intro allI impI)
    apply (erule b)
    done
qed

theorem renaming_is_lookup_witness:
  "columns (projr (transform sample_env (sample_header # sample_body))) ! 0 = ''gender'' \<and>
   field (normalized_records (projr (transform sample_env (sample_header # sample_body))) ! 0) ''gender'' = Some (Scalar (Parsed (Some ''Male''))) \<and>
   insert_params (without_label ''comments'' (zip (columns (projr (transform sample_env (sample_header # sample_body)))) (rows (projr (transform sample_env (sample_header # sample_body))) ! 0)))
     = normalized_records (projr (transform sample_env (sample_header # sample_body))) ! 0"
proof -
  from renaming_is_lookup [OF sample_counts, of sample_env sample_body] obtain df0 df where
    rc: "read_csv sample_env (sample_header # sample_body) = Inr df0" and
    tr: "transform sample_env (sample_header # sample_body) = Inr df" and
    f0: "(\<forall>j<length sample_header. \<forall>d. map_of COLUMN_MAPPING (canonicalize (sample_header ! j)) = Some d \<longrightarrow>
       columns df ! j = d \<and> d \<in> set INSERT_COLUMNS \<and>
       (count_list (working_labels sample_header) d = 1 \<longrightarrow>
          (\<forall>i<length (rows df0).
             field (normalized_records df ! i) d = Some (Scalar (rows df ! i ! j)))))" and
    f1: "(\<forall>x. map_of COLUMN_MAPPING x = None \<and> x \<notin> set INSERT_COLUMNS \<longrightarrow>
       (\<forall>j<length sample_header. canonicalize (sample_header ! j) = x \<longrightarrow> columns df ! j = x) \<and>
       (\<forall>i<length (rows df0).
          insert_params (without_label x (zip (columns df) (rows df ! i)))
            = normalized_records df ! i))"
    by blast
  have df0: "df0 = sample_table" using rc by (simp add: read_sample)
  have df: "df = sample_result" using tr by (simp add: transform_sample)
  have len: "length (rows df0) = 2" "length sample_header = 3"
    by (simp_all add: df0 sample_table_def sample_header_def)
  have k: "map_of COLUMN_MAPPING (canonicalize (sample_header ! 0)) = Some ''gender''"
    by code_simp
  have n: "map_of COLUMN_MAPPING ''comments'' = None \<and> ''comments'' \<notin> set INSERT_COLUMNS"
    by (simp add: COLUMN_MAPPING_def INSERT_COLUMNS_def)
  from f0 [rule_format, of 0 "''gender''"] k len
  have a: "columns df ! 0 = ''gender''" and
       a': "\<forall>i<length (rows df0). field (normalized_records df ! i) ''gender''
              = Some (Scalar (rows df ! i ! 0))"
    by (simp_all add: sample_labels)
  from a' len have b: "field (normalized_records df ! 0) ''gender'' = Some (Scalar (Parsed (Some ''Male'')))"
    by (simp add: df sample_result_def)
  from f1 [rule_format, OF n] len
  have c: "insert_params (without_label ''comments'' (zip (columns df) (rows df ! 0)))
     = normalized_records df ! 0"
    by simp
  from a b c show ?thesis by (simp add: tr)
qed

text \<open>
  C10 (as stated): every column whose canonical label is no key of the mapping is
  excluded from the destination. A column labelled \<^verbatim>\<open>current_position\<close> is such a
  column, keeps its name, and is written to the destination.
\<close>

theorem unmapped_column_not_excluded:
  "map_of COLUMN_MAPPING (canonicalize ''Current Position'') = None \<and>
   map_sum id columns (transform sample_env [[''Current Position''], [''Engineer'']])
     = Inr [''current_position'', ''start_time'', ''end_time''] \<and>
   map_sum id normalized_records (transform sample_env [[''Current Position''], [''Engineer'']])
     = Inr [[Scalar PyNone, Scalar PyNone, Scalar PyNone, Scalar PyNone,
             Scalar PyNone, Scalar PyNone, Scalar PyNone, Scalar PyNone, Scalar PyNone,
             Scalar PyNone, Scalar (Parsed (Some ''Engineer'')), Scalar PyNone, Scalar PyNone,
             Scalar PyNone]]"
  by code_simp

text \<open>
  C10 (amended): the rename step leaves every row as it is and changes no name but
  those of the mapping's keys: a column whose canonical label is no key has that label
  after the rename and still has it when the rows are inserted. When that label is not
  one of the fourteen destination names either, the column's cells are still what
  \<^verbatim>\<open>read_csv\<close> produced, and the column is kept out of the destination by the projection
  alone: the inserted tuple is the same with and without it.
\<close>

theorem rename_frame:
  assumes "count_list (working_labels hdr) ''start_time'' \<le> 1"
      and "count_list (working_labels hdr) ''end_time'' \<le> 1"
  shows "\<exists>df0 df. read_csv env (hdr # body) = Inr df0 \<and> transform env (hdr # body) = Inr df \<and>
    rows (rename_columns (clean_columns df0)) = rows df0 \<and>
    length (columns (rename_columns (clean_columns df0))) = length hdr \<and>
    (\<forall>j<length hdr. map_of COLUMN_MAPPING (canonicalize (hdr ! j)) = None \<longrightarrow>
       columns (rename_columns (clean_columns df0)) ! j = canonicalize (hdr ! j) \<and>
       columns df ! j = canonicalize (hdr ! j) \<and>
       (canonicalize (hdr ! j) \<notin> set INSERT_COLUMNS \<longrightarrow>
          (\<forall>i<length (rows df0).
             rows df ! i ! j = rows df0 ! i ! j \<and>
             insert_params (without_label (canonicalize (hdr ! j)) (zip (columns df) (rows df ! i)))
               = normalized_records df ! i)))"
proof -
  obtain df0 df where
    rc: "read_csv env (hdr # body) = Inr df0" and
    tr: "transform env (hdr # body) = Inr df" and
    rect: "rectangular df" and
    len: "length (rows df) = length (rows df0)" and
    cols: "columns df = working_labels hdr
        @ (if ''start_time'' \<in> set (working_labels hdr) then [] else [''start_time''])
        @ (if ''end_time'' \<in> set (working_labels hdr) then [] else [''end_time''])" and
    oth: "\<And>i d. i < length (rows df0) \<Longrightarrow> d \<noteq> ''start_time'' \<Longrightarrow> d \<noteq> ''end_time'' \<Longrightarrow>
       lookup (zip (columns df) (rows df ! i)) d
         = lookup (zip (working_labels hdr) (rows df0 ! i)) d" and
    pos: "\<And>i j. i < length (rows df0) \<Longrightarrow> j < length hdr \<Longrightarrow>
       working_labels hdr ! j \<noteq> ''start_time'' \<Longrightarrow> working_labels hdr ! j \<noteq> ''end_time'' \<Longrightarrow>
       rows df ! i ! j = rows df0 ! i ! j" and
    ab: "\<And>i key. i < length (rows df0) \<Longrightarrow> key = ''start_time'' \<or> key = ''end_time'' \<Longrightarrow>
       key \<notin> set (working_labels hdr) \<Longrightarrow>
       lookup (zip (columns df) (rows df ! i)) key = [PyNone]" and
    pr: "\<And>i key j. i < length (rows df0) \<Longrightarrow> key = ''start_time'' \<or> key = ''end_time'' \<Longrightarrow>
       j < length hdr \<Longrightarrow> working_labels hdr ! j = key \<Longrightarrow>
       lookup (zip (columns df) (rows df ! i)) key
         = [coerce (parse_datetime env) (map (\<lambda>r. r ! j) (rows df0)) (rows df0 ! i ! j)]"
    by (rule transform_facts [OF assms, of env body]) (rule that)
  have df0: "df0 = \<lparr>columns = hdr, rows = convert_fields (infer env) (field_table hdr body)\<rparr>"
    using rc by (simp add: read_csv_Cons)
  have lenR: "length (working_labels hdr) = length hdr"
    by (simp add: working_labels_def)
  have len0: "length (working_labels hdr) = length (rows df0 ! i)" if "i < length (rows df0)" for i
    using rectangularD [OF read_csv_rectangular [OF rc], of "rows df0 ! i"] that
    by (simp add: df0 lenR)
  have lenF: "length (columns df) = length (rows df ! i)" if "i < length (rows df0)" for i
    using rectangularD [OF rect, of "rows df ! i"] that len by simp
  have colj: "columns df ! j = working_labels hdr ! j" "j < length (columns df)"
    if "j < length hdr" for j
    using that lenR by (simp_all add: cols nth_append)
  have cnt: "count_list (columns df) d = count_list (working_labels hdr) d"
    if "d \<in> set (working_labels hdr)" for d
    using that by (simp add: cols)
  have a: "rows (rename_columns (clean_columns df0)) = rows df0"
    by (simp add: rename_columns_def clean_columns_def)
  have ren: "columns (rename_columns (clean_columns df0)) = working_labels hdr"
    by (simp add: rename_columns_def clean_columns_def working_labels_def df0)
  have b: "length (columns (rename_columns (clean_columns df0))) = length hdr"
    by (simp add: ren lenR)
  have c: "columns (rename_columns (clean_columns df0)) ! j = canonicalize (hdr ! j) \<and>
       columns df ! j = canonicalize (hdr ! j) \<and>
       (canonicalize (hdr ! j) \<notin> set INSERT_COLUMNS \<longrightarrow>
          (\<forall>i<length (rows df0).
             rows df ! i ! j = rows df0 ! i ! j \<and>
             insert_params (without_label (canonicalize (hdr ! j)) (zip (columns df) (rows df ! i)))
               = normalized_records df ! i))"
    if j: "j < length hdr" and n: "map_of COLUMN_MAPPING (canonicalize (hdr ! j)) = None" for j
  proof -
    have w: "working_labels hdr ! j = canonicalize (hdr ! j)"
      using j n by (simp add: working_labels_nth rename_label_other)
    have "rows df ! i ! j = rows df0 ! i ! j \<and>
          insert_params (without_label (canonicalize (hdr ! j)) (zip (columns df) (rows df ! i)))
            = normalized_records df ! i"
      if x: "canonicalize (hdr ! j) \<notin> set INSERT_COLUMNS" and i: "i < length (rows df0)" for i
    proof -
      from x have "canonicalize (hdr ! j) \<noteq> ''start_time''" "canonicalize (hdr ! j) \<noteq> ''end_time''"
        by (auto simp add: INSERT_COLUMNS_def)
      with pos [OF i j] w have "rows df ! i ! j = rows df0 ! i ! j" by simp
      then show ?thesis
        using i len x by (simp add: normalized_records_nth insert_params_without_label)
    qed
    then show ?thesis using w colj(1) [OF j] by (simp add: ren)
  qed
  show ?thesis
    apply (rule exI [of _ df0])
    apply (rule exI [of _ df])
    apply (intro conjI)
    apply (rule rc)
    apply (rule tr)
    apply (rule a)
    apply (rule b)
    apply (intro allI impI)
    apply (erule (1) c)
    done
qed

theorem rename_frame_witness:
  "columns (projr (transform sample_env (sample_header # sample_body))) ! 1 = ''comments'' \<and>
   rows (projr (transform sample_env (sample_header # sample_body))) ! 0 ! 1 = Parsed (Some ''none'') \<and>
   insert_params (without_label ''comments'' (zip (columns (projr (transform sample_env (sample_header # sample_body)))) (rows (projr (transform sample_env (sample_header # sample_body))) ! 0)))
     = normalized_records (projr (transform sample_env (sample_header # sample_body))) ! 0"
proof -
  from rename_frame [OF sample_counts, of sample_env sample_body] obtain df0 df where
    rc: "read_csv sample_env (sample_header # sample_body) = Inr df0" and
    tr: "transform sample_env (sample_header # sample_body) = Inr df" and
    f0: "rows (rename_columns (clean_columns df0)) = rows df0" and
    f1: "length (columns (rename_columns (clean_columns df0))) = length sample_header" and
    f2: "(\<forall>j<length sample_header. map_of COLUMN_MAPPING (canonicalize (sample_header ! j)) = None \<longrightarrow>
       columns (rename_columns (clean_columns df0)) ! j = canonicalize (sample_header ! j) \<and>
       columns df ! j = canonicalize (sample_header ! j) \<and>
       (canonicalize (sample_header ! j) \<notin> set INSERT_COLUMNS \<longrightarrow>
          (\<forall>i<length (rows df0).
             rows df ! i ! j = rows df0 ! i ! j \<and>
             insert_params (without_label (canonicalize (sample_header ! j)) (zip (columns df) (rows df ! i)))
               = normalized_records df ! i)))"
    by blast
  have df0: "df0 = sample_table" using rc by (simp add: read_sample)
  have df: "df = sample_result" using tr by (simp add: transform_sample)
  have len: "length (rows df0) = 2" "length sample_header = 3"
    by (simp_all add: df0 sample_table_def sample_header_def)
  have c: "canonicalize (sample_header ! 1) = ''comments''" by code_simp
  have n: "map_of COLUMN_MAPPING ''comments'' = None" "''comments'' \<notin> set INSERT_COLUMNS"
    by (simp_all add: COLUMN_MAPPING_def INSERT_COLUMNS_def)
  from f2 [rule_format, of 1] c n len
  have a: "columns df ! 1 = ''comments''" and
       a': "\<forall>i<length (rows df0). rows df ! i ! 1 = rows df0 ! i ! 1 \<and>
              insert_params (without_label ''comments'' (zip (columns df) (rows df ! i)))
                = normalized_records df ! i"
    by simp_all
  from a' len have b: "rows df ! 0 ! 1 = Parsed (Some ''none'')"
    "insert_params (without_label ''comments'' (zip (columns df) (rows df ! 0)))
       = normalized_records df ! 0"
    by (simp_all add: df0 sample_table_def)
  from a b show ?thesis by (simp add: tr)
qed

section \<open>The loader\<close>

lemma length_numbered: "length (numbered n xs) = length xs"
  by (induction xs arbitrary: n) auto

lemma execute_Inr:
  "execute env c st = Inr c' \<Longrightarrow>
     accepts env st \<and> Inr (view c') = apply_statement (view c) st \<and>
     outside c' = (outside c)\<lparr>log := log (outside c) @ [Executed st]\<rparr>"
  by (auto simp add: execute_def split: if_splits sum.splits)

lemma execute_insert_Inr:
  "execute env c (InsertInto s t ps) = Inr c' \<Longrightarrow> tables (view c) (s, t) = Some tb \<Longrightarrow>
     view c' = (view c)\<lparr>tables := (tables (view c))((s, t) \<mapsto>
                 \<lparr>next_id = Suc (next_id tb), stored = stored tb @ [(next_id tb, ps)]\<rparr>)\<rparr> \<and>
     outside c' = (outside c)\<lparr>log := log (outside c) @ [Executed (InsertInto s t ps)]\<rparr> \<and>
     accepts env (InsertInto s t ps)"
  by (auto simp add: execute_def split: if_splits)

lemma execute_Inl:
  "execute env c st = Inl (e, w) \<Longrightarrow> w = outside c"
  by (auto simp add: execute_def split: if_splits sum.splits)

lemma insert_rows_Inr:
  "insert_rows env c recs = Inr c' \<Longrightarrow>
   tables (view c) (SCHEMA_NAME, TABLE_NAME) = Some tb \<Longrightarrow>
     tables (view c') (SCHEMA_NAME, TABLE_NAME)
       = Some \<lparr>next_id = next_id tb + length recs,
               stored = stored tb @ numbered (next_id tb) recs\<rparr> \<and>
     log (outside c') = log (outside c)
        @ map (\<lambda>ps. Executed (InsertInto SCHEMA_NAME TABLE_NAME ps)) recs \<and>
     committed (outside c') = committed (outside c) \<and>
     list_all (\<lambda>ps. accepts env (InsertInto SCHEMA_NAME TABLE_NAME ps)) recs"
proof (induction recs arbitrary: c tb)
  case Nil
  then show ?case by simp
next
  case (Cons ps rest)
  from Cons.prems(1) obtain c1 where
    e: "execute env c (InsertInto SCHEMA_NAME TABLE_NAME ps) = Inr c1" and
    r: "insert_rows env c1 rest = Inr c'"
    by (auto split: sum.splits)
  note x = execute_insert_Inr [OF e Cons.prems(2)]
  from x have
    t1: "tables (view c1) (SCHEMA_NAME, TABLE_NAME)
          = Some \<lparr>next_id = Suc (next_id tb), stored = stored tb @ [(next_id tb, ps)]\<rparr>"
    by simp
  from Cons.IH [OF r t1] x show ?case
    by simp
qed

lemma insert_rows_Inl:
  "insert_rows env c recs = Inl (e, w) \<Longrightarrow>
     committed w = committed (outside c) \<and>
     (\<exists>evs. log w = log (outside c) @ evs \<and> Committed \<notin> set evs)"
proof (induction recs arbitrary: c)
  case Nil
  then show ?case by simp
next
  case (Cons ps rest)
  show ?case
  proof (cases "execute env c (InsertInto SCHEMA_NAME TABLE_NAME ps)")
    case (Inl f)
    with Cons.prems have "f = (e, w)" by simp
    with Inl execute_Inl have "w = outside c" by fastforce
    then show ?thesis by simp
  next
    case (Inr c1)
    with Cons.prems have r: "insert_rows env c1 rest = Inl (e, w)" by simp
    from Cons.IH [OF r] execute_Inr [OF Inr] show ?thesis by auto
  qed
qed

lemma insert_rows_rejected:
  "\<not> list_all (\<lambda>ps. accepts env (InsertInto SCHEMA_NAME TABLE_NAME ps)) recs \<Longrightarrow>
     \<exists>f. insert_rows env c recs = Inl f"
proof (induction recs arbitrary: c)
  case Nil
  then show ?case by simp
next
  case (Cons ps rest)
  then show ?case
    by (cases "execute env c (InsertInto SCHEMA_NAME TABLE_NAME ps)")
       (auto dest: execute_Inr)
qed

lemma insert_rows_accepted:
  "list_all (\<lambda>ps. accepts env (InsertInto SCHEMA_NAME TABLE_NAME ps)) recs \<Longrightarrow>
   tables (view c) (SCHEMA_NAME, TABLE_NAME) \<noteq> None \<Longrightarrow>
     \<exists>c'. insert_rows env c recs = Inr c'"
proof (induction recs arbitrary: c)
  case Nil
  then show ?case by simp
next
  case (Cons ps rest)
  from Cons.prems obtain tb where tb: "tables (view c) (SCHEMA_NAME, TABLE_NAME) = Some tb"
    by auto
  with Cons.prems obtain c1 where
    e: "execute env c (InsertInto SCHEMA_NAME TABLE_NAME ps) = Inr c1"
    by (auto simp add: execute_def)
  from execute_insert_Inr [OF e tb] have "tables (view c1) (SCHEMA_NAME, TABLE_NAME) \<noteq> None"
    by simp
  with Cons.IH [of c1] Cons.prems(1) e show ?case by auto
qed

lemma load_steps:
  assumes "load env df w = Inr w'"
  obtains c3 c4 where
    "tables (view c3) (SCHEMA_NAME, TABLE_NAME) = Some \<lparr>next_id = 1, stored = []\<rparr>"
    "log (outside c3) = log w @ Connected # map Executed ddl"
    "committed (outside c3) = committed w"
    "insert_rows env c3 (normalized_records df) = Inr c4"
    "w' = commit_and_close c4"
proof -
  from assms obtain c0 c1 c2 c3 c4 where
    s: "connect env w = Inr c0"
       "execute env c0 (CreateSchemaIfNotExists SCHEMA_NAME) = Inr c1"
       "execute env c1 (DropTableIfExists SCHEMA_NAME TABLE_NAME) = Inr c2"
       "execute env c2 (CreateTable SCHEMA_NAME TABLE_NAME) = Inr c3"
       "insert_rows env c3 (normalized_records df) = Inr c4"
       "w' = commit_and_close c4"
    by (auto simp add: load_def split: sum.splits)
  from s(1) have c0: "outside c0 = w\<lparr>log := log w @ [Connected]\<rparr>"
    by (auto simp add: connect_def split: if_splits)
  note x1 = execute_Inr [OF s(2)] and x2 = execute_Inr [OF s(3)] and x3 = execute_Inr [OF s(4)]
  from x3 have "tables (view c3) (SCHEMA_NAME, TABLE_NAME) = Some \<lparr>next_id = 1, stored = []\<rparr>"
    by (auto split: if_splits)
  moreover from c0 x1 x2 x3 have "log (outside c3) = log w @ Connected # map Executed ddl"
    by (simp add: ddl_def)
  moreover from c0 x1 x2 x3 have "committed (outside c3) = committed w"
    by simp
  ultimately show ?thesis using s(5,6) that by blast
qed

lemma load_Inr:
  assumes "load env df w = Inr w'"
  shows "destination w' = Some (numbered 1 (normalized_records df))"
    and "log w' = log w @ Connected # map Executed (ddl @ inserts df) @ [Committed, Closed]"
    and "list_all (accepts env) (inserts df)"
proof -
  from assms obtain c3 c4 where
    s: "tables (view c3) (SCHEMA_NAME, TABLE_NAME) = Some \<lparr>next_id = 1, stored = []\<rparr>"
       "log (outside c3) = log w @ Connected # map Executed ddl"
       "insert_rows env c3 (normalized_records df) = Inr c4"
       "w' = commit_and_close c4"
    by (rule load_steps)
  note i = insert_rows_Inr [OF s(3) s(1)]
  from i s(4) show "destination w' = Some (numbered 1 (normalized_records df))"
    by (simp add: destination_def commit_and_close_def)
  from i s(2,4)
  show "log w' = log w @ Connected # map Executed (ddl @ inserts df) @ [Committed, Closed]"
    by (simp add: commit_and_close_def inserts_def comp_def)
  from i show "list_all (accepts env) (inserts df)"
    by (simp add: inserts_def list_all_iff)
qed

lemma load_Inl:
  assumes "load env df w = Inl (e, w')"
  shows "committed w' = committed w \<and> (\<exists>evs. log w' = log w @ evs \<and> Committed \<notin> set evs)"
proof -
  have keep: "\<And>c c' st. execute env c st = Inr c' \<Longrightarrow>
      committed (outside c') = committed (outside c) \<and>
      log (outside c') = log (outside c) @ [Executed st]"
    by (auto dest: execute_Inr)
  have fail: "\<And>c st. execute env c st = Inl (e, w') \<Longrightarrow> w' = outside c"
    by (rule execute_Inl)
  show ?thesis
  proof (cases "connect env w")
    case (Inl f)
    with assms show ?thesis
      by (auto simp add: load_def connect_def split: if_splits)
  next
    case c0: (Inr c0)
    then have o0: "committed (outside c0) = committed w" "log (outside c0) = log w @ [Connected]"
      by (auto simp add: connect_def split: if_splits)
    show ?thesis
    proof (cases "execute env c0 (CreateSchemaIfNotExists SCHEMA_NAME)")
      case (Inl f)
      with assms c0 have "w' = outside c0"
        by (auto simp add: load_def dest: fail)
      with o0 show ?thesis by simp
    next
      case c1: (Inr c1)
      note o1 = keep [OF c1]
      show ?thesis
      proof (cases "execute env c1 (DropTableIfExists SCHEMA_NAME TABLE_NAME)")
        case (Inl f)
        with assms c0 c1 have "w' = outside c1"
          by (auto simp add: load_def dest: fail)
        with o0 o1 show ?thesis by simp
      next
        case c2: (Inr c2)
        note o2 = keep [OF c2]
        show ?thesis
        proof (cases "execute env c2 (CreateTable SCHEMA_NAME TABLE_NAME)")
          case (Inl f)
          with assms c0 c1 c2 have "w' = outside c2"
            by (auto simp add: load_def dest: fail)
          with o0 o1 o2 show ?thesis by simp
        next
          case c3: (Inr c3)
          note o3 = keep [OF c3]
          from assms c0 c1 c2 c3 have "insert_rows env c3 (normalized_records df) = Inl (e, w')"
            by (auto simp add: load_def split: sum.splits)
          from insert_rows_Inl [OF this] o0 o1 o2 o3 show ?thesis by auto
        qed
      qed
    qed
  qed
qed

lemma load_rejected:
  assumes "\<not> list_all (accepts env) (inserts df)"
  shows "\<exists>f. load env df w = Inl f"
proof -
  from assms have
    "\<not> list_all (\<lambda>ps. accepts env (InsertInto SCHEMA_NAME TABLE_NAME ps)) (normalized_records df)"
    by (simp add: inserts_def list_all_iff)
  then have "insert_rows env c (normalized_records df) \<noteq> Inr c4" for c c4
    using insert_rows_rejected [of env "normalized_records df" c] by auto
  then show ?thesis
    by (simp add: load_def split: sum.splits)
qed

lemma load_accepted:
  assumes "reachable env" "list_all (accepts env) (ddl @ inserts df)"
  shows "\<exists>w'. load env df w = Inr w'"
proof -
  from assms(2) have a: "accepts env (CreateSchemaIfNotExists SCHEMA_NAME)"
    "accepts env (DropTableIfExists SCHEMA_NAME TABLE_NAME)"
    "accepts env (CreateTable SCHEMA_NAME TABLE_NAME)"
    and i: "list_all (\<lambda>ps. accepts env (InsertInto SCHEMA_NAME TABLE_NAME ps)) (normalized_records df)"
    by (simp_all add: ddl_def inserts_def list_all_iff)
  obtain c0 where c0: "connect env w = Inr c0"
    using assms(1) by (simp add: connect_def)
  obtain c1 where c1: "execute env c0 (CreateSchemaIfNotExists SCHEMA_NAME) = Inr c1"
    using a by (simp add: execute_def)
  obtain c2 where c2: "execute env c1 (DropTableIfExists SCHEMA_NAME TABLE_NAME) = Inr c2"
    using a by (simp add: execute_def)
  from execute_Inr [OF c1] execute_Inr [OF c2]
  have v2: "SCHEMA_NAME \<in> schemas (view c2)" "tables (view c2) (SCHEMA_NAME, TABLE_NAME) = None"
    by auto
  obtain c3 where c3: "execute env c2 (CreateTable SCHEMA_NAME TABLE_NAME) = Inr c3"
    using a v2 by (simp add: execute_def)
  from execute_Inr [OF c3] v2 have "tables (view c3) (SCHEMA_NAME, TABLE_NAME) \<noteq> None"
    by auto
  from insert_rows_accepted [OF i this] obtain c4 where
    "insert_rows env c3 (normalized_records df) = Inr c4" by blast
  with c0 c1 c2 c3 show ?thesis by (simp add: load_def)
qed

lemma transform_survey_one: "transform sample_env (text_lines survey_one) =
  Inr \<lparr>columns = [''start_time'', ''end_time'', ''gender''],
       rows = [[Timestamp 1704103200, Timestamp 1704105000, Parsed (Some ''Female'')]]\<rparr>"
  by code_simp

lemma pipeline_Inr:
  assumes "pipeline env r w = Inr w'"
  obtains df where "status_code r = 200" "transform env (text_lines r) = Inr df"
    "load env df w = Inr w'"
  using assms by (auto simp add: pipeline_def fetch_def split: if_splits sum.splits)

lemma pipeline_succeeds:
  assumes "status_code r = 200" "transform env (text_lines r) = Inr df"
    "reachable env" "list_all (accepts env) (ddl @ inserts df)"
  shows "\<exists>w'. pipeline env r w = Inr w'"
  using assms load_accepted [of env df w] by (simp add: pipeline_def fetch_def)

lemma transform_survey_two: "transform sample_env (text_lines survey_two) =
  Inr \<lparr>columns = [''gender'', ''start_time'', ''end_time''],
       rows = [[Parsed (Some ''Male''), Timestamp 1704105000, PyNone],
               [Parsed (Some ''Female''), NaT, PyNone]]\<rparr>"
  by code_simp

lemma transform_survey_two_strict: "transform strict_env (text_lines survey_two) =
  Inr \<lparr>columns = [''gender'', ''start_time'', ''end_time''],
       rows = [[Parsed (Some ''Male''), Timestamp 1704105000, PyNone],
               [Parsed (Some ''Female''), NaT, PyNone]]\<rparr>"
  by code_simp

text \<open>
  C9: when the service answers with a status other than 200 (so with any non-success
  status, such as 401) the run ends with the extraction error and the world is as it
  was: nothing is added to the log, so no connection was opened, and the result does
  not depend on the body or on the environment, so neither the transformer nor the
  loader ran.
\<close>

theorem extraction_failure_first:
  "status_code r \<noteq> 200 \<Longrightarrow> pipeline env r w = Inl (FetchFailed, w)"
  by (simp add: pipeline_def fetch_def)

theorem extraction_failure_first_witness:
  "pipeline sample_env (survey_one\<lparr>status_code := 401\<rparr>) empty_world
     = Inl (FetchFailed, empty_world)"
  using extraction_failure_first [of "survey_one\<lparr>status_code := 401\<rparr>" sample_env empty_world]
  by simp

text \<open>
  C1: after a run that completes, the destination table holds exactly the records the
  transformer produced for that run, numbered from 1, whatever the world was before;
  so after two runs in succession it holds the second run's records only, as many as
  the second table has rows.
\<close>

theorem replace_load:
  assumes "pipeline env1 r1 w0 = Inr w1" and "pipeline env2 r2 w1 = Inr w2"
  shows "\<exists>df1 df2.
     transform env1 (text_lines r1) = Inr df1 \<and> transform env2 (text_lines r2) = Inr df2 \<and>
     destination w1 = Some (numbered 1 (normalized_records df1)) \<and>
     destination w2 = Some (numbered 1 (normalized_records df2)) \<and>
     map_option length (destination w2) = Some (length (rows df2))"
proof -
  from assms(1) obtain df1 where
    1: "transform env1 (text_lines r1) = Inr df1" "load env1 df1 w0 = Inr w1"
    by (rule pipeline_Inr)
  from assms(2) obtain df2 where
    2: "transform env2 (text_lines r2) = Inr df2" "load env2 df2 w1 = Inr w2"
    by (rule pipeline_Inr)
  have "map_option length (Some (numbered 1 (normalized_records df2)))
      = Some (length (rows df2))"
    by (simp add: normalized_records_def iterrows_def length_numbered)
  with 1 2 load_Inr(1) [OF 1(2)] load_Inr(1) [OF 2(2)] show ?thesis by simp
qed

theorem replace_load_witness:
  "(case pipeline sample_env survey_one empty_world of
      Inl f \<Rightarrow> None
    | Inr w1 \<Rightarrow>
        (case pipeline sample_env survey_two w1 of
           Inl f \<Rightarrow> None
         | Inr w2 \<Rightarrow> destination w2))
   = Some [(1, [Scalar (Timestamp 1704105000), Scalar PyNone, Scalar PyNone,
                Scalar PyNone, Scalar PyNone, Scalar PyNone,
                Scalar (Parsed (Some ''Male'')), Scalar PyNone, Scalar PyNone,
                Scalar PyNone, Scalar PyNone, Scalar PyNone, Scalar PyNone,
                Scalar PyNone]),
           (2, [Scalar NaT, Scalar PyNone, Scalar PyNone, Scalar PyNone,
                Scalar PyNone, Scalar PyNone, Scalar (Parsed (Some ''Female'')),
                Scalar PyNone, Scalar PyNone, Scalar PyNone, Scalar PyNone,
                Scalar PyNone, Scalar PyNone, Scalar PyNone])]"
proof -
  have a: "list_all (accepts sample_env) sts" for sts
    by (simp add: sample_env_def list_all_iff)
  have r: "reachable sample_env" by (simp add: sample_env_def)
  obtain w1 where w1: "pipeline sample_env survey_one empty_world = Inr w1"
    using pipeline_succeeds [OF _ transform_survey_one r a] by (auto simp add: survey_one_def)
  obtain w2 where w2: "pipeline sample_env survey_two w1 = Inr w2"
    using pipeline_succeeds [OF _ transform_survey_two r a] by (auto simp add: survey_two_def)
  from replace_load [OF w1 w2] transform_survey_two have
    "destination w2 = Some (numbered 1 (normalized_records
       \<lparr>columns = [''gender'', ''start_time'', ''end_time''],
        rows = [[Parsed (Some ''Male''), Timestamp 1704105000, PyNone],
                [Parsed (Some ''Female''), NaT, PyNone :: string option cell]]\<rparr>))"
    by auto
  then show ?thesis
    by (simp add: w1 w2 normalized_records_def iterrows_def insert_params_def row_get_def
        lookup_def)
qed

text \<open>
  C2: a run that completes has issued the three DDL statements and every insert and
  then committed, once, as its last statement before closing; when the server refuses
  one of the inserts the run aborts; and a run that aborts, for whatever reason, has
  committed nothing: the committed database is what it was before the run.
\<close>

theorem single_commit:
  "(\<forall>w'. pipeline env r w = Inr w' \<longrightarrow>
      (\<exists>df. transform env (text_lines r) = Inr df \<and>
         log w' = log w @ Connected # map Executed (ddl @ inserts df) @ [Committed, Closed]))
   \<and> (\<forall>df. status_code r = 200 \<and> transform env (text_lines r) = Inr df \<and>
         \<not> list_all (accepts env) (inserts df) \<longrightarrow> (\<exists>f. pipeline env r w = Inl f))
   \<and> (\<forall>e w'. pipeline env r w = Inl (e, w') \<longrightarrow>
         committed w' = committed w \<and>
         (\<exists>evs. log w' = log w @ evs \<and> Committed \<notin> set evs))"
proof -
  have completed: "\<exists>df. transform env (text_lines r) = Inr df \<and>
         log w' = log w @ Connected # map Executed (ddl @ inserts df) @ [Committed, Closed]"
    if "pipeline env r w = Inr w'" for w'
  proof -
    from that obtain df where "transform env (text_lines r) = Inr df" "load env df w = Inr w'"
      by (rule pipeline_Inr)
    with load_Inr(2) [of env df w w'] show ?thesis by blast
  qed
  have refused: "\<exists>f. pipeline env r w = Inl f"
    if "status_code r = 200 \<and> transform env (text_lines r) = Inr df \<and>
         \<not> list_all (accepts env) (inserts df)" for df
  proof -
    from that have "pipeline env r w = load env df w"
      by (simp add: pipeline_def fetch_def)
    with that load_rejected [of env df w] show ?thesis by simp
  qed
  have aborted: "committed w' = committed w \<and>
      (\<exists>evs. log w' = log w @ evs \<and> Committed \<notin> set evs)"
    if p: "pipeline env r w = Inl (e, w')" for e w'
  proof (cases "\<exists>df. status_code r = 200 \<and> transform env (text_lines r) = Inr df")
    case True
    then obtain df where "pipeline env r w = load env df w"
      by (auto simp add: pipeline_def fetch_def)
    with p load_Inl [of env df w e w'] show ?thesis by simp
  next
    case False
    with p have "w' = w"
      by (auto simp add: pipeline_def fetch_def split: if_splits sum.splits)
    then show ?thesis by simp
  qed
  from completed refused aborted show ?thesis by blast
qed

theorem single_commit_witness:
  "isl (pipeline strict_env survey_two empty_world) \<and>
   destination (snd (projl (pipeline strict_env survey_two empty_world))) = None \<and>
   Committed \<notin> set (log (snd (projl (pipeline strict_env survey_two empty_world))))"
proof -
  have s: "status_code survey_two = 200" by (simp add: survey_two_def)
  have n: "\<not> list_all (accepts strict_env)
     (inserts \<lparr>columns = [''gender'', ''start_time'', ''end_time''],
       rows = [[Parsed (Some ''Male''), Timestamp 1704105000, PyNone],
               [Parsed (Some ''Female''), NaT, PyNone]]\<rparr>)"
    by (simp add: strict_env_def inserts_def normalized_records_def iterrows_def
        insert_params_def row_get_def lookup_def)
  note t = single_commit [of strict_env survey_two empty_world]
  from t [THEN conjunct2, THEN conjunct1] s transform_survey_two_strict n
  obtain e w' where f: "pipeline strict_env survey_two empty_world = Inl (e, w')"
    by (metis surj_pair)
  from t [THEN conjunct2, THEN conjunct2, rule_format, OF f]
  have c: "committed w' = committed empty_world" and
       l: "\<exists>evs. log w' = log empty_world @ evs \<and> Committed \<notin> set evs"
    by simp_all
  from c have "destination w' = None"
    by (simp add: destination_def empty_world_def)
  with f l show ?thesis by (auto simp add: empty_world_def)
qed

end
